theory Spec2Isabelle
  imports Complex_Main "HOL-Library.Word"
begin

section \<open>The contact-form endpoint of lares_backend\<close>

text \<open>
  A shallow embedding of \<^verbatim>\<open>directus/extensions/endpoints/contact-form/index.js\<close>:
  the sanitizer \<^verbatim>\<open>stripHTML\<close>, the fixed-window rate limiter \<^verbatim>\<open>isRateLimited\<close>,
  the whitelist validator \<^verbatim>\<open>validateFormData\<close> and the \<^verbatim>\<open>router.post\<close> handler.
\<close>

subsection \<open>JavaScript strings and values\<close>

text \<open>
  A JavaScript string is a sequence of UTF-16 code units; the regular expressions of the
  module have no \<^verbatim>\<open>u\<close> flag, so they too work on code units.
\<close>

type_synonym code_unit = "16 word"
type_synonym jsstring = "code_unit list"

text \<open>Source literals are ASCII; \<open>ustr\<close> reads one as a JavaScript string.\<close>

definition ustr :: "string \<Rightarrow> jsstring" where
  "ustr s = map of_char s"

text \<open>
  The values a JSON body can hold, and \<^verbatim>\<open>undefined\<close> for a property that is absent.
  A finite number is a real, with \<^verbatim>\<open>NaN\<close> and the two infinities apart; of a number
  the module only ever uses its type and whether it is truthy.
\<close>

datatype jsval =
    JUndefined
  | JNull
  | JBool bool
  | JNum real
  | JNaN
  | JInfinity bool
  | JStr jsstring
  | JArr "jsval list"
  | JObj "(jsstring \<times> jsval) list"

text \<open>\<^verbatim>\<open>typeof v\<close>.\<close>

fun typeof :: "jsval \<Rightarrow> string" where
  "typeof JUndefined = ''undefined''"
| "typeof JNull = ''object''"
| "typeof (JBool b) = ''boolean''"
| "typeof (JNum x) = ''number''"
| "typeof JNaN = ''number''"
| "typeof (JInfinity b) = ''number''"
| "typeof (JStr s) = ''string''"
| "typeof (JArr vs) = ''object''"
| "typeof (JObj ps) = ''object''"

text \<open>\<^verbatim>\<open>ToBoolean\<close>: what \<^verbatim>\<open>if (v)\<close>, \<^verbatim>\<open>!v\<close>, \<^verbatim>\<open>&&\<close> and \<^verbatim>\<open>||\<close> test.\<close>

fun truthy :: "jsval \<Rightarrow> bool" where
  "truthy JUndefined = False"
| "truthy JNull = False"
| "truthy (JBool b) = b"
| "truthy (JNum x) = (x \<noteq> 0)"
| "truthy JNaN = False"
| "truthy (JInfinity b) = True"
| "truthy (JStr s) = (s \<noteq> [])"
| "truthy (JArr vs) = True"
| "truthy (JObj ps) = True"

subsection \<open>The sanitizer\<close>

definition LT :: code_unit where
  "LT = 0x3C"

definition GT :: code_unit where
  "GT = 0x3E"

text \<open>
  \<^verbatim>\<open>str.replace(/<[^>]*>/g, '')\<close>. The global replace scans from the left. A match
  begins at a \<^verbatim>\<open><\<close> that has a \<^verbatim>\<open>>\<close> somewhere after it, and runs to the first such
  \<^verbatim>\<open>>\<close>, since \<^verbatim>\<open>[^>]*\<close> cannot cross one; the match is dropped and the scan goes on
  behind it. Any other code unit is kept.
\<close>

function strip_tags :: "jsstring \<Rightarrow> jsstring" where
  "strip_tags [] = []"
| "strip_tags (c # cs) =
     (if c = LT \<and> GT \<in> set cs
      then strip_tags (tl (dropWhile (\<lambda>d. d \<noteq> GT) cs))
      else c # strip_tags cs)"
  by pat_completeness auto
termination
proof (relation "measure length")
  show "wf (measure length)" by simp
next
  fix c :: code_unit and cs :: jsstring
  have "length (tl (dropWhile (\<lambda>d. d \<noteq> GT) cs)) \<le> length cs"
    using length_dropWhile_le [of "\<lambda>d. d \<noteq> GT" cs] by simp
  then show "(tl (dropWhile (\<lambda>d. d \<noteq> GT) cs), c # cs) \<in> measure length"
    by simp
next
  fix c :: code_unit and cs :: jsstring
  show "(cs, c # cs) \<in> measure length" by simp
qed

text \<open>
  \<^verbatim>\<open>function stripHTML(str) { if (typeof str !== 'string') return ''; return str.replace(...); }\<close>
\<close>

fun stripHTML :: "jsval \<Rightarrow> jsstring" where
  "stripHTML (JStr s) = strip_tags s"
| "stripHTML v = []"

text \<open>
  The tag shape \<^verbatim>\<open><...>\<close> of the specification: a \<^verbatim>\<open><\<close>, any code units other
  than \<^verbatim>\<open>>\<close>, a \<^verbatim>\<open>>\<close>.
\<close>

definition tag_shaped :: "jsstring \<Rightarrow> bool" where
  "tag_shaped t = (\<exists>m. t = LT # m @ [GT] \<and> GT \<notin> set m)"

definition contains_tag :: "jsstring \<Rightarrow> bool" where
  "contains_tag s = (\<exists>a t b. s = a @ t @ b \<and> tag_shaped t)"

text \<open>
  \<open>tags_removed s r\<close>: \<open>r\<close> is \<open>s\<close> with some tag-shaped substrings cut out and every
  other code unit left in place.
\<close>

inductive tags_removed :: "jsstring \<Rightarrow> jsstring \<Rightarrow> bool" where
  done_all: "tags_removed [] []"
| keep_unit: "tags_removed s r \<Longrightarrow> tags_removed (c # s) (c # r)"
| drop_tag: "tag_shaped t \<Longrightarrow> tags_removed s r \<Longrightarrow> tags_removed (t @ s) r"

text \<open>The same test as a computation: some \<^verbatim>\<open><\<close> has a \<^verbatim>\<open>>\<close> after it.\<close>

fun has_tag :: "jsstring \<Rightarrow> bool" where
  "has_tag [] = False"
| "has_tag (c # cs) = ((c = LT \<and> GT \<in> set cs) \<or> has_tag cs)"

subsection \<open>Character classes, \<^verbatim>\<open>trim\<close> and the whitelist patterns\<close>

text \<open>
  \<^verbatim>\<open>\s\<close> in a regular expression, and the code units \<^verbatim>\<open>String.prototype.trim\<close>
  strips: ECMAScript's WhiteSpace and LineTerminator.
\<close>

definition is_space :: "code_unit \<Rightarrow> bool" where
  "is_space c =
     (c = 0x0009 \<or> c = 0x000A \<or> c = 0x000B \<or> c = 0x000C \<or> c = 0x000D \<or> c = 0x0020
      \<or> c = 0x00A0 \<or> c = 0x1680 \<or> (0x2000 \<le> c \<and> c \<le> 0x200A)
      \<or> c = 0x2028 \<or> c = 0x2029 \<or> c = 0x202F \<or> c = 0x205F \<or> c = 0x3000 \<or> c = 0xFEFF)"

definition is_digit :: "code_unit \<Rightarrow> bool" where
  "is_digit c = (0x30 \<le> c \<and> c \<le> 0x39)"

definition is_lower :: "code_unit \<Rightarrow> bool" where
  "is_lower c = (0x61 \<le> c \<and> c \<le> 0x7A)"

definition is_upper :: "code_unit \<Rightarrow> bool" where
  "is_upper c = (0x41 \<le> c \<and> c \<le> 0x5A)"

text \<open>\<^verbatim>\<open>str.trim()\<close> on a string.\<close>

definition trim :: "jsstring \<Rightarrow> jsstring" where
  "trim s = rev (dropWhile is_space (rev (dropWhile is_space s)))"

text \<open>
  The patterns of the module are sequences of quantified character classes, anchored at
  both ends: \<open>Rep P lo hi\<close> is the class \<open>P\<close> repeated at least \<open>lo\<close> and at most \<open>hi\<close>
  times (\<open>None\<close> for no upper bound), so \<^verbatim>\<open>[c]{2,100}\<close> is \<open>Rep c 2 (Some 100)\<close>,
  \<^verbatim>\<open>[c]+\<close> is \<open>Rep c 1 None\<close> and a literal is \<open>Rep (\<lambda>d. d = c) 1 (Some 1)\<close>.
\<close>

datatype atom = Rep "code_unit \<Rightarrow> bool" nat "nat option"

type_synonym regex = "atom list"

fun can_take :: "nat option \<Rightarrow> bool" where
  "can_take None = True"
| "can_take (Some n) = (0 < n)"

fun one_less :: "nat option \<Rightarrow> nat option" where
  "one_less None = None"
| "one_less (Some n) = Some (n - 1)"

fun fits :: "nat option \<Rightarrow> nat \<Rightarrow> bool" where
  "fits None n = True"
| "fits (Some h) n = (n \<le> h)"

text \<open>
  \<^verbatim>\<open>pattern.test(str)\<close> for a pattern \<^verbatim>\<open>/^...$/\<close>: the whole string has to match. The
  matcher tries, at every code unit, to leave the current atom or to take the code unit.
\<close>

function regex_test :: "regex \<Rightarrow> jsstring \<Rightarrow> bool" where
  "regex_test [] s = (s = [])"
| "regex_test (Rep P lo hi # atoms) [] = (lo = 0 \<and> regex_test atoms [])"
| "regex_test (Rep P lo hi # atoms) (c # cs) =
     ((lo = 0 \<and> regex_test atoms (c # cs))
      \<or> (can_take hi \<and> P c \<and> regex_test (Rep P (lo - 1) (one_less hi) # atoms) cs))"
  by pat_completeness auto
termination
  by (relation "measure (\<lambda>(atoms, s). 2 * length s + length atoms)") auto

definition literal :: "code_unit \<Rightarrow> atom" where
  "literal c = Rep (\<lambda>d. d = c) 1 (Some 1)"

text \<open>\<^verbatim>\<open>name: /^[a-zA-Z\<close>U+00C0\<^verbatim>\<open>-\<close>U+00FF\<^verbatim>\<open>\s'\-]{2,100}$/\<close>\<close>

definition name_char :: "code_unit \<Rightarrow> bool" where
  "name_char c =
     (is_lower c \<or> is_upper c \<or> (0xC0 \<le> c \<and> c \<le> 0xFF) \<or> is_space c \<or> c = 0x27 \<or> c = 0x2D)"

definition PATTERN_name :: regex where
  "PATTERN_name = [Rep name_char 2 (Some 100)]"

text \<open>\<^verbatim>\<open>email: /^[a-zA-Z0-9._%+\-]+@[a-zA-Z0-9.\-]+\.[a-zA-Z]{2,254}$/\<close>\<close>

definition email_local_char :: "code_unit \<Rightarrow> bool" where
  "email_local_char c =
     (is_lower c \<or> is_upper c \<or> is_digit c \<or> c = 0x2E \<or> c = 0x5F \<or> c = 0x25 \<or> c = 0x2B
      \<or> c = 0x2D)"

definition email_domain_char :: "code_unit \<Rightarrow> bool" where
  "email_domain_char c = (is_lower c \<or> is_upper c \<or> is_digit c \<or> c = 0x2E \<or> c = 0x2D)"

definition email_tld_char :: "code_unit \<Rightarrow> bool" where
  "email_tld_char c = (is_lower c \<or> is_upper c)"

definition PATTERN_email :: regex where
  "PATTERN_email =
     [Rep email_local_char 1 None, literal 0x40, Rep email_domain_char 1 None, literal 0x2E,
      Rep email_tld_char 2 (Some 254)]"

text \<open>\<^verbatim>\<open>phone: /^[\d\s+\-()]{0,20}$/\<close>\<close>

definition phone_char :: "code_unit \<Rightarrow> bool" where
  "phone_char c =
     (is_digit c \<or> is_space c \<or> c = 0x2B \<or> c = 0x2D \<or> c = 0x28 \<or> c = 0x29)"

definition PATTERN_phone :: regex where
  "PATTERN_phone = [Rep phone_char 0 (Some 20)]"

text \<open>\<^verbatim>\<open>message: /^[\s\S]{10,2000}$/\<close>: the class \<^verbatim>\<open>[\s\S]\<close> is every code unit.\<close>

definition PATTERN_message :: regex where
  "PATTERN_message = [Rep (\<lambda>c. is_space c \<or> \<not> is_space c) 10 (Some 2000)]"

text \<open>The sanitizer's pattern \<^verbatim>\<open>/<[^>]*>/\<close>, for one match.\<close>

definition PATTERN_tag :: regex where
  "PATTERN_tag = [literal LT, Rep (\<lambda>c. c \<noteq> GT) 0 None, literal GT]"

text \<open>\<^verbatim>\<open>const ALLOWED_SUBJECTS = ['info', 'visit', 'partnership', 'other'];\<close>\<close>

definition ALLOWED_SUBJECTS :: "jsval list" where
  "ALLOWED_SUBJECTS =
     [JStr (ustr ''info''), JStr (ustr ''visit''), JStr (ustr ''partnership''),
      JStr (ustr ''other'')]"

text \<open>
  \<^verbatim>\<open>array.includes(v)\<close> compares with SameValueZero; on an array of strings that is
  equality with one of them.
\<close>

definition array_includes :: "jsval list \<Rightarrow> jsval \<Rightarrow> bool" where
  "array_includes vs v = (v \<in> set vs)"

subsection \<open>Exceptions and property access\<close>

text \<open>
  What a \<^verbatim>\<open>catch\<close> clause receives: an \<^verbatim>\<open>Error\<close> object with its \<^verbatim>\<open>message\<close>, raised by
  the engine (\<open>TypeError\<close>) or by a collaborator (\<open>Error\<close>), or any other value, since
  JavaScript lets a collaborator throw or reject with any value, \<^verbatim>\<open>null\<close> and
  \<^verbatim>\<open>undefined\<close> included.
\<close>

datatype exn = TypeError string | Error string | Thrown jsval

definition andThen :: "exn + 'a \<Rightarrow> ('a \<Rightarrow> exn + 'b) \<Rightarrow> exn + 'b" where
  "andThen r f = (case r of Inl e \<Rightarrow> Inl e | Inr v \<Rightarrow> f v)"

text \<open>
  \<^verbatim>\<open>data.key\<close>: reading a property of \<^verbatim>\<open>undefined\<close> or \<^verbatim>\<open>null\<close> throws; an object
  gives its own property or \<^verbatim>\<open>undefined\<close>; an array or a primitive has none of the
  properties the module reads, so gives \<^verbatim>\<open>undefined\<close>.
\<close>

fun get_prop :: "jsval \<Rightarrow> string \<Rightarrow> exn + jsval" where
  "get_prop JUndefined k = Inl (TypeError ''Cannot read properties of undefined'')"
| "get_prop JNull k = Inl (TypeError ''Cannot read properties of null'')"
| "get_prop (JObj ps) k = Inr (case map_of ps (ustr k) of None \<Rightarrow> JUndefined | Some v \<Rightarrow> v)"
| "get_prop v k = Inr JUndefined"

text \<open>
  \<^verbatim>\<open>err.message\<close> in a \<^verbatim>\<open>catch\<close> clause: the message of an \<^verbatim>\<open>Error\<close> object; of any
  other thrown value its \<^verbatim>\<open>message\<close> property, and reading that throws when the value
  is \<^verbatim>\<open>undefined\<close> or \<^verbatim>\<open>null\<close>.
\<close>

fun read_message :: "exn \<Rightarrow> exn + jsval" where
  "read_message (TypeError m) = Inr (JStr (ustr m))"
| "read_message (Error m) = Inr (JStr (ustr m))"
| "read_message (Thrown v) = get_prop v ''message''"

text \<open>
  \<^verbatim>\<open>v.trim()\<close>: only a string has the method; on any other value the call throws a
  \<^verbatim>\<open>TypeError\<close>.
\<close>

fun call_trim :: "jsval \<Rightarrow> exn + jsstring" where
  "call_trim (JStr s) = Inr (trim s)"
| "call_trim JUndefined = Inl (TypeError ''Cannot read properties of undefined'')"
| "call_trim JNull = Inl (TypeError ''Cannot read properties of null'')"
| "call_trim v = Inl (TypeError ''trim is not a function'')"

subsection \<open>The validator\<close>

record validation =
  valid :: bool
  errors :: "(string \<times> string) list"

text \<open>
  The five conditions of \<^verbatim>\<open>validateFormData\<close>, each with JavaScript's short-circuit
  evaluation of \<^verbatim>\<open>||\<close> and \<^verbatim>\<open>&&\<close>: the value of the condition, or the exception thrown
  while it is evaluated.
\<close>

definition required_text_fails :: "regex \<Rightarrow> jsval \<Rightarrow> exn + bool" where
  "required_text_fails pattern v =
     (if \<not> truthy v then Inr True
      else if typeof v \<noteq> ''string'' then Inr True
      else andThen (call_trim v) (\<lambda>t. Inr (\<not> regex_test pattern t)))"

definition phone_fails :: "jsval \<Rightarrow> exn + bool" where
  "phone_fails v =
     (if \<not> truthy v then Inr False
      else if \<not> typeof v = ''string'' then Inr False
      else andThen (call_trim v) (\<lambda>t.
        if \<not> truthy (JStr t) then Inr False
        else andThen (call_trim v) (\<lambda>t'. Inr (\<not> regex_test PATTERN_phone t'))))"

definition subject_fails :: "jsval \<Rightarrow> exn + bool" where
  "subject_fails v =
     (if \<not> truthy v then Inr True else Inr (\<not> array_includes ALLOWED_SUBJECTS v))"

definition error_if :: "bool \<Rightarrow> string \<Rightarrow> string \<Rightarrow> (string \<times> string) list" where
  "error_if failed key reason = (if failed then [(key, reason)] else [])"

definition validateFormData :: "jsval \<Rightarrow> exn + validation" where
  "validateFormData data =
     andThen (get_prop data ''name'') (\<lambda>name.
     andThen (required_text_fails PATTERN_name name) (\<lambda>e1.
     andThen (get_prop data ''email'') (\<lambda>email.
     andThen (required_text_fails PATTERN_email email) (\<lambda>e2.
     andThen (get_prop data ''phone'') (\<lambda>phone.
     andThen (phone_fails phone) (\<lambda>e3.
     andThen (get_prop data ''subject'') (\<lambda>subject.
     andThen (subject_fails subject) (\<lambda>e4.
     andThen (get_prop data ''message'') (\<lambda>message.
     andThen (required_text_fails PATTERN_message message) (\<lambda>e5.
       let errors =
             error_if e1 ''name'' ''Invalid name''
             @ error_if e2 ''email'' ''Invalid email''
             @ error_if e3 ''phone'' ''Invalid phone''
             @ error_if e4 ''subject'' ''Invalid subject''
             @ error_if e5 ''message'' ''Invalid message''
       in Inr \<lparr>valid = (length (map fst errors) = 0), errors = errors\<rparr>))))))))))"

subsection \<open>The rate limiter\<close>

text \<open>
  \<^verbatim>\<open>const RATE_LIMIT_MAX = 3; const RATE_LIMIT_WINDOW_MS = 15 * 60 * 1000;\<close>
  \<^verbatim>\<open>const rateLimitStore = new Map();\<close>
  Counters and \<^verbatim>\<open>Date.now()\<close> milliseconds are integral JavaScript numbers far below
  \<open>2^53\<close>, so they are modelled as \<open>int\<close>.
\<close>

definition RATE_LIMIT_MAX :: int where
  "RATE_LIMIT_MAX = 3"

definition RATE_LIMIT_WINDOW_MS :: int where
  "RATE_LIMIT_WINDOW_MS = 15 * 60 * 1000"

record rl_entry =
  count :: int
  firstRequest :: int

type_synonym rl_store = "jsstring \<rightharpoonup> rl_entry"

definition rateLimitStore_init :: rl_store where
  "rateLimitStore_init = Map.empty"

text \<open>
  \<open>isRateLimited now store ip\<close>: the value of \<^verbatim>\<open>Date.now()\<close> is a parameter, the module's
  store is passed in and returned updated. The result \<open>True\<close> means rejected.
\<close>

definition isRateLimited :: "int \<Rightarrow> rl_store \<Rightarrow> jsstring \<Rightarrow> bool \<times> rl_store" where
  "isRateLimited now store ip =
     (case store ip of
        None \<Rightarrow> (False, store(ip \<mapsto> \<lparr>count = 1, firstRequest = now\<rparr>))
      | Some entry \<Rightarrow>
          if now - firstRequest entry > RATE_LIMIT_WINDOW_MS
          then (False, store(ip \<mapsto> \<lparr>count = 1, firstRequest = now\<rparr>))
          else if count entry \<ge> RATE_LIMIT_MAX
          then (True, store)
          else (False, store(ip \<mapsto> entry\<lparr>count := count entry + 1\<rparr>)))"

text \<open>A sequence of calls, each with its clock reading and identity, run from a store.\<close>

fun run_calls :: "rl_store \<Rightarrow> (int \<times> jsstring) list \<Rightarrow> rl_store" where
  "run_calls store [] = store"
| "run_calls store ((now, ip) # calls) = run_calls (snd (isRateLimited now store ip)) calls"

text \<open>
  Consecutive attempts of one identity at the given clock readings: the handler admits a
  request exactly when \<^verbatim>\<open>isRateLimited\<close> returns false.
\<close>

fun attempts :: "rl_store \<Rightarrow> jsstring \<Rightarrow> int list \<Rightarrow> bool list" where
  "attempts store ip [] = []"
| "attempts store ip (now # later) =
     (\<not> fst (isRateLimited now store ip)) # attempts (snd (isRateLimited now store ip)) ip later"

text \<open>The invariant of the store: every entry's counter lies between 1 and the maximum.\<close>

definition store_inv :: "rl_store \<Rightarrow> bool" where
  "store_inv store = (\<forall>ip entry. store ip = Some entry \<longrightarrow> 1 \<le> count entry \<and> count entry \<le> RATE_LIMIT_MAX)"

subsection \<open>The whitelist contracts of the specification\<close>

text \<open>
  The field contracts in the words of the specification's table: name, 2 to 100 allowed
  characters; email, a local part, \<^verbatim>\<open>@\<close>, a domain, a dot and a top-level segment of
  2 to 254 letters; phone, at most 20 characters of its class; subject, one of the
  enumeration; message, 10 to 2000 characters of any kind.
\<close>

definition name_contract :: "jsstring \<Rightarrow> bool" where
  "name_contract s = (2 \<le> length s \<and> length s \<le> 100 \<and> list_all name_char s)"

definition email_contract :: "jsstring \<Rightarrow> bool" where
  "email_contract s =
     (\<exists>local domain tld. s = local @ [0x40] @ domain @ [0x2E] @ tld
        \<and> local \<noteq> [] \<and> list_all email_local_char local
        \<and> domain \<noteq> [] \<and> list_all email_domain_char domain
        \<and> 2 \<le> length tld \<and> length tld \<le> 254 \<and> list_all email_tld_char tld)"

definition phone_contract :: "jsstring \<Rightarrow> bool" where
  "phone_contract s = (length s \<le> 20 \<and> list_all phone_char s)"

definition message_contract :: "jsstring \<Rightarrow> bool" where
  "message_contract s = (10 \<le> length s \<and> length s \<le> 2000)"

definition subject_contract :: "jsval \<Rightarrow> bool" where
  "subject_contract v =
     (v = JStr (ustr ''info'') \<or> v = JStr (ustr ''visit'') \<or> v = JStr (ustr ''partnership'')
      \<or> v = JStr (ustr ''other''))"

text \<open>
  A required text field meets its contract when it is a string whose text, read through
  \<open>prep\<close>, does; the phone field when it is absent, blank or a string that does. With
  \<open>prep\<close> the identity the contract is applied to the field as submitted, with
  \<open>prep = trim\<close> to the field without its leading and trailing white space.
\<close>

definition text_ok :: "(jsstring \<Rightarrow> bool) \<Rightarrow> (jsstring \<Rightarrow> jsstring) \<Rightarrow> jsval \<Rightarrow> bool" where
  "text_ok contract prep v = (case v of JStr s \<Rightarrow> contract (prep s) | _ \<Rightarrow> False)"

definition phone_ok :: "(jsstring \<Rightarrow> jsstring) \<Rightarrow> jsval \<Rightarrow> bool" where
  "phone_ok prep v =
     (case v of
        JUndefined \<Rightarrow> True
      | JNull \<Rightarrow> True
      | JStr s \<Rightarrow> list_all is_space s \<or> phone_contract (prep s)
      | _ \<Rightarrow> False)"

text \<open>
  The condition under which the validator reports the phone field, in terms of the
  contract: a string that is not empty, not blank after trimming, and whose trimmed text
  breaks the contract. No value of another type is ever reported.
\<close>

definition phone_rejected :: "jsval \<Rightarrow> bool" where
  "phone_rejected v =
     (case v of JStr s \<Rightarrow> s \<noteq> [] \<and> trim s \<noteq> [] \<and> \<not> phone_contract (trim s) | _ \<Rightarrow> False)"

text \<open>The value the validator reads for a field of the submission.\<close>

definition field :: "jsval \<Rightarrow> string \<Rightarrow> jsval" where
  "field data k = (case get_prop data k of Inl e \<Rightarrow> JUndefined | Inr v \<Rightarrow> v)"

definition FIELDS :: "string list" where
  "FIELDS = [''name'', ''email'', ''phone'', ''subject'', ''message'']"

definition field_ok :: "(jsstring \<Rightarrow> jsstring) \<Rightarrow> jsval \<Rightarrow> string \<Rightarrow> bool" where
  "field_ok prep data k =
     (if k = ''name'' then text_ok name_contract prep (field data k)
      else if k = ''email'' then text_ok email_contract prep (field data k)
      else if k = ''phone'' then phone_ok prep (field data k)
      else if k = ''subject'' then subject_contract (field data k)
      else text_ok message_contract prep (field data k))"

text \<open>The phone field is absent or a string.\<close>

definition phone_absent_or_string :: "jsval \<Rightarrow> bool" where
  "phone_absent_or_string data =
     (case field data ''phone'' of JUndefined \<Rightarrow> True | JNull \<Rightarrow> True | JStr s \<Rightarrow> True
      | _ \<Rightarrow> False)"

subsection \<open>The request handler\<close>

text \<open>
  The transport metadata and body the handler reads: \<^verbatim>\<open>req.headers['x-forwarded-for']\<close>
  (a string, or \<^verbatim>\<open>undefined\<close> when the header is not sent), \<^verbatim>\<open>req.ip\<close> and
  \<^verbatim>\<open>req.body\<close>.
\<close>

record request =
  x_forwarded_for :: "jsstring option"
  req_ip :: "jsstring option"
  req_body :: jsval

text \<open>\<^verbatim>\<open>str.split(',')\<close>: the pieces between the separators, always at least one.\<close>

fun split_at :: "code_unit \<Rightarrow> jsstring \<Rightarrow> jsstring list" where
  "split_at sep [] = [[]]"
| "split_at sep (c # cs) =
     (if c = sep then [] # split_at sep cs
      else (case split_at sep cs of [] \<Rightarrow> [[c]] | piece # pieces \<Rightarrow> (c # piece) # pieces))"

text \<open>\<^verbatim>\<open>array[0]\<close>: \<^verbatim>\<open>undefined\<close> on an empty array.\<close>

fun first_element :: "'a list \<Rightarrow> 'a option" where
  "first_element [] = None"
| "first_element (x # xs) = Some x"

text \<open>
  \<^verbatim>\<open>req.headers['x-forwarded-for']?.split(',')[0] || req.ip || 'unknown'\<close>: an operand
  of \<^verbatim>\<open>||\<close> is taken when it is truthy, that is a string that is not empty.
\<close>

definition clientIp :: "request \<Rightarrow> jsstring" where
  "clientIp req =
     (case (case x_forwarded_for req of None \<Rightarrow> None
            | Some header \<Rightarrow> first_element (split_at 0x2C header)) of
        Some (c # cs) \<Rightarrow> c # cs
      | _ \<Rightarrow>
          (case req_ip req of
             Some (c # cs) \<Rightarrow> c # cs
           | _ \<Rightarrow> ustr ''unknown''))"

text \<open>
  \<^verbatim>\<open>str.toLowerCase()\<close>. The handler calls it only on the trimmed email after it has
  matched the email pattern, so on ASCII; there it maps \<^verbatim>\<open>A-Z\<close> to \<^verbatim>\<open>a-z\<close>.
\<close>

definition toLowerCase :: "jsstring \<Rightarrow> jsstring" where
  "toLowerCase s = map (\<lambda>c. if is_upper c then c + 0x20 else c) s"

record sanitized =
  name :: jsstring
  email :: jsstring
  phone :: jsstring
  subject :: jsval
  message :: jsstring
  ip_address :: jsstring
  status :: string

text \<open>
  The object literal \<^verbatim>\<open>sanitizedData\<close>, its properties evaluated in order; a
  \<^verbatim>\<open>.trim()\<close> on a value that is not a string throws.
\<close>

definition sanitize :: "jsval \<Rightarrow> jsstring \<Rightarrow> exn + sanitized" where
  "sanitize body ip =
     andThen (get_prop body ''name'') (\<lambda>n.
     andThen (call_trim n) (\<lambda>name_trimmed.
     andThen (get_prop body ''email'') (\<lambda>e.
     andThen (call_trim e) (\<lambda>email_trimmed.
     andThen (get_prop body ''phone'') (\<lambda>p.
     andThen (if truthy p then andThen (call_trim p) (\<lambda>t. Inr (stripHTML (JStr t))) else Inr [])
       (\<lambda>phone_clean.
     andThen (get_prop body ''subject'') (\<lambda>subj.
     andThen (get_prop body ''message'') (\<lambda>m.
     andThen (call_trim m) (\<lambda>message_trimmed.
       Inr \<lparr>name = stripHTML (JStr name_trimmed),
            email = toLowerCase email_trimmed,
            phone = phone_clean,
            subject = subj,
            message = stripHTML (JStr message_trimmed),
            ip_address = ip,
            status = ''new''\<rparr>)))))))))"

text \<open>The argument of \<^verbatim>\<open>mailService.send\<close>.\<close>

record mail =
  mail_to :: "jsstring option"
  mail_subject :: jsstring
  template_name :: string
  template_data :: "jsstring \<times> jsstring \<times> jsstring \<times> jsval \<times> jsstring"

text \<open>
  The template literal \<^verbatim>\<open>`[Lares] New contact: ${sanitizedData.subject}`\<close>; the subject
  has passed validation, so it is one of the four strings.
\<close>

definition mail_of :: "jsstring option \<Rightarrow> sanitized \<Rightarrow> mail" where
  "mail_of admin d =
     \<lparr>mail_to = admin,
      mail_subject = ustr ''[Lares] New contact: '' @ (case subject d of JStr s \<Rightarrow> s | _ \<Rightarrow> []),
      template_name = ''contact-notification'',
      template_data = (name d, email d, phone d, subject d, message d)\<rparr>"

text \<open>
  The collaborators of the Directus context, each by what a call does: \<open>None\<close> when it
  returns, \<open>Some e\<close> when it throws or rejects with \<open>e\<close>. \<open>ADMIN_EMAIL\<close> is
  \<^verbatim>\<open>process.env.ADMIN_EMAIL\<close>.
\<close>

record services =
  getSchema :: "exn option"
  createOne :: "sanitized \<Rightarrow> exn option"
  send :: "mail \<Rightarrow> exn option"
  ADMIN_EMAIL :: "jsstring option"

text \<open>What the handler does to the outside, in order.\<close>

datatype effect =
    CreateOne sanitized
  | MailSend mail
  | ConsoleError string jsval

record response =
  http_status :: nat
  json_message :: string
  json_errors :: "(string \<times> string) list option"

definition respond :: "nat \<Rightarrow> string \<Rightarrow> response" where
  "respond code text = \<lparr>http_status = code, json_message = text, json_errors = None\<rparr>"

text \<open>
  What a run of the handler ends in: a response sent to the client, or, when the handler
  itself throws, its promise rejected with no response sent.
\<close>

type_synonym outcome = "exn + response"

text \<open>
  The outer \<^verbatim>\<open>catch (err)\<close>: \<^verbatim>\<open>console.error('Contact form error:', err.message)\<close>, then
  the 500 response. When reading \<^verbatim>\<open>err.message\<close> throws, nothing is logged or sent.
\<close>

definition caught :: "exn \<Rightarrow> effect list \<Rightarrow> outcome \<times> effect list" where
  "caught err done =
     (case read_message err of
        Inl thrown \<Rightarrow> (Inl thrown, done)
      | Inr text \<Rightarrow>
          (Inr (respond 500 ''Internal server error.''),
           done @ [ConsoleError ''Contact form error:'' text]))"

text \<open>\<^verbatim>\<open>const body = req.body || {};\<close>\<close>

definition body_or_empty :: "jsval \<Rightarrow> jsval" where
  "body_or_empty raw_body = (if truthy raw_body then raw_body else JObj [])"

text \<open>
  The steps behind the rate limiter, inside the outer \<^verbatim>\<open>try\<close>: honeypot, validation,
  sanitizing, storage, and the notification in its own \<^verbatim>\<open>try\<close>/\<^verbatim>\<open>catch\<close>, whose
  clause is \<^verbatim>\<open>console.error('Email notification failed:', mailErr.message)\<close>; what that
  clause throws goes to the outer \<^verbatim>\<open>catch\<close>.
\<close>

definition admitted :: "services \<Rightarrow> jsstring \<Rightarrow> jsval \<Rightarrow> outcome \<times> effect list" where
  "admitted svc ip raw_body =
     (let body = body_or_empty raw_body in
      case get_prop body ''honeypot'' of
        Inl err \<Rightarrow> caught err []
      | Inr honeypot \<Rightarrow>
          if truthy honeypot then (Inr (respond 200 ''Thank you for your message.''), [])
          else
            (case validateFormData body of
               Inl err \<Rightarrow> caught err []
             | Inr validation \<Rightarrow>
                 if \<not> valid validation
                 then (Inr \<lparr>http_status = 400, json_message = ''Validation failed'',
                             json_errors = Some (errors validation)\<rparr>, [])
                 else
                   (case sanitize body ip of
                      Inl err \<Rightarrow> caught err []
                    | Inr sanitizedData \<Rightarrow>
                        (case getSchema svc of
                           Some err \<Rightarrow> caught err []
                         | None \<Rightarrow>
                             (case createOne svc sanitizedData of
                                Some err \<Rightarrow> caught err [CreateOne sanitizedData]
                              | None \<Rightarrow>
                                  (case send svc (mail_of (ADMIN_EMAIL svc) sanitizedData) of
                                     None \<Rightarrow>
                                       (Inr (respond 200 ''Message received successfully.''),
                                        [CreateOne sanitizedData,
                                         MailSend (mail_of (ADMIN_EMAIL svc) sanitizedData)])
                                   | Some mailErr \<Rightarrow>
                                       (case read_message mailErr of
                                          Inl thrown \<Rightarrow>
                                            caught thrown
                                              [CreateOne sanitizedData,
                                               MailSend (mail_of (ADMIN_EMAIL svc) sanitizedData)]
                                        | Inr text \<Rightarrow>
                                            (Inr (respond 200 ''Message received successfully.''),
                                             [CreateOne sanitizedData,
                                              MailSend (mail_of (ADMIN_EMAIL svc) sanitizedData),
                                              ConsoleError ''Email notification failed:'' text]))))))))"

text \<open>
  The \<^verbatim>\<open>router.post('/')\<close> handler: how it ends, the effects on the collaborators and
  the console, and the rate-limit store afterwards.
\<close>

definition handler ::
  "services \<Rightarrow> int \<Rightarrow> rl_store \<Rightarrow> request \<Rightarrow> outcome \<times> effect list \<times> rl_store" where
  "handler svc now store req =
     (case isRateLimited now store (clientIp req) of
        (limited, store') \<Rightarrow>
          if limited
          then (Inr (respond 429 ''Too many requests. Try again later.''), [], store')
          else (case admitted svc (clientIp req) (req_body req) of
                  (res, effects) \<Rightarrow> (res, effects, store')))"

subsection \<open>Sample submissions\<close>

text \<open>A body with the four required fields, each a string, and no phone.\<close>

definition submission :: "string \<Rightarrow> string \<Rightarrow> string \<Rightarrow> string \<Rightarrow> jsval" where
  "submission n e s m =
     JObj [(ustr ''name'', JStr (ustr n)), (ustr ''email'', JStr (ustr e)),
           (ustr ''subject'', JStr (ustr s)), (ustr ''message'', JStr (ustr m))]"

text \<open>
  Collaborators that all succeed, collaborators whose mail service throws an \<^verbatim>\<open>Error\<close>,
  and collaborators whose mail service rejects with \<^verbatim>\<open>null\<close>; a request
  with no forwarded-for header from a given address; a body that passes validation and
  what the handler stores for it; a body that fills the decoy field.
\<close>

definition working_services :: services where
  "working_services =
     \<lparr>getSchema = None, createOne = (\<lambda>d. None), send = (\<lambda>m. None),
      ADMIN_EMAIL = Some (ustr ''admin@example.org'')\<rparr>"

definition mail_down_services :: services where
  "mail_down_services =
     \<lparr>getSchema = None, createOne = (\<lambda>d. None),
      send = (\<lambda>m. Some (Error ''SMTP connection refused'')),
      ADMIN_EMAIL = Some (ustr ''admin@example.org'')\<rparr>"

definition mail_null_services :: services where
  "mail_null_services =
     \<lparr>getSchema = None, createOne = (\<lambda>d. None), send = (\<lambda>m. Some (Thrown JNull)),
      ADMIN_EMAIL = Some (ustr ''admin@example.org'')\<rparr>"

definition request_from :: "string \<Rightarrow> jsval \<Rightarrow> request" where
  "request_from address body =
     \<lparr>x_forwarded_for = None, req_ip = Some (ustr address), req_body = body\<rparr>"

definition genuine_body :: jsval where
  "genuine_body = submission ''Marco Rossi'' ''Marco@Example.com'' ''info'' ''I want <b>information</b>.''"

definition genuine_sanitized :: sanitized where
  "genuine_sanitized =
     \<lparr>name = ustr ''Marco Rossi'', email = ustr ''marco@example.com'', phone = [],
      subject = JStr (ustr ''info''), message = ustr ''I want information.'',
      ip_address = ustr ''203.0.113.7'', status = ''new''\<rparr>"

definition honeypot_body :: jsval where
  "honeypot_body = JObj [(ustr ''honeypot'', JStr (ustr ''x'')), (ustr ''name'', JNum 7)]"

section \<open>Properties\<close>

subsection \<open>Sanitizer\<close>

lemma set_tl_subset: "set (tl xs) \<subseteq> set xs"
  by (cases xs) auto

lemma set_strip_tags: "set (strip_tags s) \<subseteq> set s"
proof (induction s rule: strip_tags.induct)
  case 1
  show ?case by simp
next
  case (2 c cs)
  show ?case
  proof (cases "c = LT \<and> GT \<in> set cs")
    case True
    have "set (tl (dropWhile (\<lambda>d. d \<noteq> GT) cs)) \<subseteq> set cs"
      using set_tl_subset [of "dropWhile (\<lambda>d. d \<noteq> GT) cs"] set_dropWhileD [of _ "\<lambda>d. d \<noteq> GT" cs]
      by blast
    with 2 True show ?thesis by auto
  next
    case False
    with 2 show ?thesis by auto
  qed
qed

lemma has_tag_strip: "\<not> has_tag (strip_tags s)"
proof (induction s rule: strip_tags.induct)
  case 1
  show ?case by simp
next
  case (2 c cs)
  show ?case
  proof (cases "c = LT \<and> GT \<in> set cs")
    case True
    with 2 show ?thesis by simp
  next
    case False
    with 2 set_strip_tags [of cs] show ?thesis by auto
  qed
qed

lemma strip_no_tag: "\<not> has_tag s \<Longrightarrow> strip_tags s = s"
  by (induction s) auto

lemma contains_tag_iff: "contains_tag s \<longleftrightarrow> has_tag s"
proof
  assume "contains_tag s"
  then obtain a m b where s: "s = a @ (LT # m @ [GT]) @ b"
    by (auto simp: contains_tag_def tag_shaped_def)
  show "has_tag s" unfolding s by (induction a) auto
next
  assume "has_tag s"
  then show "contains_tag s"
  proof (induction s)
    case Nil
    then show ?case by simp
  next
    case (Cons c cs)
    show ?case
    proof (cases "c = LT \<and> GT \<in> set cs")
      case True
      then obtain m b where "cs = m @ GT # b" "GT \<notin> set m"
        by (meson split_list_first)
      then have "c # cs = [] @ (LT # m @ [GT]) @ b \<and> tag_shaped (LT # m @ [GT])"
        using True by (simp add: tag_shaped_def)
      then show ?thesis unfolding contains_tag_def by blast
    next
      case False
      with Cons have "contains_tag cs" by auto
      then obtain a t b where "cs = a @ t @ b" "tag_shaped t"
        by (auto simp: contains_tag_def)
      then have "c # cs = (c # a) @ t @ b \<and> tag_shaped t" by simp
      then show ?thesis unfolding contains_tag_def by blast
    qed
  qed
qed

lemma first_tag_split:
  assumes "GT \<in> set cs"
  shows "cs = takeWhile (\<lambda>d. d \<noteq> GT) cs @ GT # tl (dropWhile (\<lambda>d. d \<noteq> GT) cs)"
proof -
  from assms have "dropWhile (\<lambda>d. d \<noteq> GT) cs \<noteq> []" by simp
  moreover have "hd (dropWhile (\<lambda>d. d \<noteq> GT) cs) = GT"
    using assms hd_dropWhile [of "\<lambda>d. d \<noteq> GT" cs] by auto
  ultimately have "dropWhile (\<lambda>d. d \<noteq> GT) cs = GT # tl (dropWhile (\<lambda>d. d \<noteq> GT) cs)"
    by (metis list.collapse)
  then show ?thesis
    by (metis takeWhile_dropWhile_id)
qed

lemma tags_removed_strip: "tags_removed s (strip_tags s)"
proof (induction s rule: strip_tags.induct)
  case 1
  show ?case by (simp add: tags_removed.done_all)
next
  case (2 c cs)
  show ?case
  proof (cases "c = LT \<and> GT \<in> set cs")
    case True
    let ?m = "takeWhile (\<lambda>d. d \<noteq> GT) cs"
    let ?rest = "tl (dropWhile (\<lambda>d. d \<noteq> GT) cs)"
    from True have cs: "cs = ?m @ GT # ?rest" using first_tag_split by blast
    have "GT \<notin> set ?m" by (auto dest: set_takeWhileD)
    then have shaped: "tag_shaped (LT # ?m @ [GT])" by (auto simp: tag_shaped_def)
    from 2 True have "tags_removed ?rest (strip_tags ?rest)" by simp
    with shaped have "tags_removed ((LT # ?m @ [GT]) @ ?rest) (strip_tags ?rest)"
      by (rule tags_removed.drop_tag)
    moreover have "(LT # ?m @ [GT]) @ ?rest = c # cs" using True cs by simp
    ultimately show ?thesis using True by simp
  next
    case False
    with 2 have "tags_removed cs (strip_tags cs)" by simp
    then have "tags_removed (c # cs) (c # strip_tags cs)" by (rule tags_removed.keep_unit)
    with False show ?thesis by auto
  qed
qed

text \<open>
  C5. The sanitizer is idempotent: \<open>stripHTML (stripHTML x) = stripHTML x\<close>, for a
  string and for any other value.
\<close>

theorem stripHTML_idempotent:
  "stripHTML (JStr (stripHTML v)) = stripHTML v"
proof (cases v)
  case (JStr s)
  have "strip_tags (strip_tags s) = strip_tags s"
    by (rule strip_no_tag [OF has_tag_strip])
  with JStr show ?thesis by simp
qed simp_all

theorem stripHTML_idempotent_witness:
  "stripHTML (JStr (ustr ''<p>a<b>c</p><'')) = ustr ''ac<''
   \<and> stripHTML (JStr (stripHTML (JStr (ustr ''<p>a<b>c</p><'')))) = ustr ''ac<''"
  using stripHTML_idempotent [of "JStr (ustr ''<p>a<b>c</p><'')"]
  by (simp add: ustr_def LT_def GT_def)

text \<open>
  C6. \<open>stripHTML\<close> is a total function that has no failing branch. A value that is not a
  string gives the empty string. For a string the result is the input with tag-shaped
  substrings cut out and every other code unit left in place, no tag-shaped substring is
  left in the result, and a string without one is returned as it is.
\<close>

theorem stripHTML_removes_tags:
  "(typeof v \<noteq> ''string'' \<longrightarrow> stripHTML v = [])
   \<and> tags_removed s (stripHTML (JStr s))
   \<and> \<not> contains_tag (stripHTML (JStr s))
   \<and> (\<not> contains_tag s \<longrightarrow> stripHTML (JStr s) = s)"
proof -
  have "typeof v \<noteq> ''string'' \<longrightarrow> stripHTML v = []"
    by (cases v) simp_all
  moreover have "tags_removed s (stripHTML (JStr s))"
    by (simp add: tags_removed_strip)
  moreover have "\<not> contains_tag (stripHTML (JStr s))"
    by (simp add: contains_tag_iff has_tag_strip)
  moreover have "\<not> contains_tag s \<longrightarrow> stripHTML (JStr s) = s"
    by (simp add: contains_tag_iff strip_no_tag)
  ultimately show ?thesis by blast
qed

theorem stripHTML_removes_tags_witness:
  "typeof (JNum 123) \<noteq> ''string'' \<and> stripHTML (JNum 123) = []
   \<and> stripHTML (JStr (ustr ''<div><b>text</b></div>'')) = ustr ''text''
   \<and> tags_removed (ustr ''<div><b>text</b></div>'') (ustr ''text'')
   \<and> \<not> contains_tag (ustr ''text'')
   \<and> stripHTML (JStr (ustr ''text'')) = ustr ''text''"
proof -
  have a: "stripHTML (JStr (ustr ''<div><b>text</b></div>'')) = ustr ''text''"
    by (simp add: ustr_def LT_def GT_def)
  have b: "typeof (JNum 123) \<noteq> ''string''"
    by simp
  from a b stripHTML_removes_tags [of "JNum 123" "ustr ''<div><b>text</b></div>''"]
    stripHTML_removes_tags [of "JNum 123" "ustr ''text''"]
  show ?thesis by simp
qed

subsection \<open>Client identity\<close>

lemma first_element_split_at:
  "first_element (split_at sep s) = Some (takeWhile (\<lambda>c. c \<noteq> sep) s)"
proof (induction s)
  case Nil
  show ?case by simp
next
  case (Cons c cs)
  then show ?case by (cases "split_at sep cs") auto
qed

text \<open>
  C7. Resolving the client identity has no failing branch, for any header, address and
  body. It is the first entry of the forwarded-for header (the text before the first
  comma) when the header is present and that entry is not empty, otherwise the direct
  connection address when there is one and it is not empty, otherwise \<open>unknown\<close>.
\<close>

theorem clientIp_policy:
  "clientIp req =
     (if \<exists>header. x_forwarded_for req = Some header \<and> takeWhile (\<lambda>c. c \<noteq> 0x2C) header \<noteq> []
      then takeWhile (\<lambda>c. c \<noteq> 0x2C) (the (x_forwarded_for req))
      else if \<exists>address. req_ip req = Some address \<and> address \<noteq> []
      then the (req_ip req)
      else ustr ''unknown'')"
proof (cases "x_forwarded_for req")
  case None
  then show ?thesis
    by (cases "req_ip req") (auto simp: clientIp_def split: list.splits)
next
  case (Some header)
  show ?thesis
  proof (cases "takeWhile (\<lambda>c. c \<noteq> 0x2C) header")
    case Nil
    with Some show ?thesis
      by (cases "req_ip req") (auto simp: clientIp_def first_element_split_at split: list.splits)
  next
    case (Cons c cs)
    with Some show ?thesis
      by (simp add: clientIp_def first_element_split_at)
  qed
qed

theorem clientIp_policy_witness:
  "clientIp \<lparr>x_forwarded_for = Some (ustr ''203.0.113.7, 10.0.0.1''),
             req_ip = Some (ustr ''10.0.0.2''), req_body = JNull\<rparr> = ustr ''203.0.113.7''
   \<and> clientIp \<lparr>x_forwarded_for = Some (ustr '',10.0.0.1''),
             req_ip = Some (ustr ''10.0.0.2''), req_body = JNull\<rparr> = ustr ''10.0.0.2''
   \<and> clientIp \<lparr>x_forwarded_for = None, req_ip = None, req_body = JNull\<rparr> = ustr ''unknown''"
  using clientIp_policy [of "\<lparr>x_forwarded_for = Some (ustr ''203.0.113.7, 10.0.0.1''),
             req_ip = Some (ustr ''10.0.0.2''), req_body = JNull\<rparr>"]
    clientIp_policy [of "\<lparr>x_forwarded_for = Some (ustr '',10.0.0.1''),
             req_ip = Some (ustr ''10.0.0.2''), req_body = JNull\<rparr>"]
    clientIp_policy [of "\<lparr>x_forwarded_for = None, req_ip = None, req_body = JNull\<rparr>"]
  by (simp add: ustr_def)

subsection \<open>Patterns\<close>

lemma fits_step: "(can_take hi \<and> fits (one_less hi) n) = fits hi (Suc n)"
  by (cases hi) auto

lemma ex_nat_cases: "(\<exists>k::nat. Q k) = (Q 0 \<or> (\<exists>k. Q (Suc k)))"
  by (metis not0_implies_Suc)

lemma regex_test_Rep:
  "regex_test (Rep P lo hi # atoms) s =
     (\<exists>k. k \<le> length s \<and> lo \<le> k \<and> fits hi k \<and> list_all P (take k s) \<and> regex_test atoms (drop k s))"
proof (induction s arbitrary: lo hi)
  case Nil
  show ?case by (cases hi) auto
next
  case (Cons c cs)
  let ?R = "\<lambda>k. k \<le> length (c # cs) \<and> lo \<le> k \<and> fits hi k \<and> list_all P (take k (c # cs))
     \<and> regex_test atoms (drop k (c # cs))"
  have zero: "?R 0 = (lo = 0 \<and> regex_test atoms (c # cs))"
    by (cases hi) simp_all
  have succ: "?R (Suc k) = (can_take hi \<and> P c \<and>
      (k \<le> length cs \<and> lo - 1 \<le> k \<and> fits (one_less hi) k \<and> list_all P (take k cs)
        \<and> regex_test atoms (drop k cs)))" for k
  proof -
    have "lo \<le> Suc k \<longleftrightarrow> lo - 1 \<le> k" by arith
    then show ?thesis
      using fits_step [of hi k] by (simp del: regex_test.simps) blast
  qed
  have "(\<exists>k. ?R k) = (?R 0 \<or> (\<exists>k. ?R (Suc k)))"
    by (rule ex_nat_cases)
  also have "\<dots> = ((lo = 0 \<and> regex_test atoms (c # cs)) \<or>
      (can_take hi \<and> P c \<and> (\<exists>k. k \<le> length cs \<and> lo - 1 \<le> k \<and> fits (one_less hi) k \<and> list_all P (take k cs)
        \<and> regex_test atoms (drop k cs))))"
    unfolding zero succ by simp
  also have "\<dots> = ((lo = 0 \<and> regex_test atoms (c # cs)) \<or>
      (can_take hi \<and> P c \<and> regex_test (Rep P (lo - 1) (one_less hi) # atoms) cs))"
    unfolding Cons.IH [of "lo - 1" "one_less hi"] by (rule refl)
  finally show ?case by simp
qed

lemma regex_test_single:
  "regex_test [Rep P lo hi] s = (lo \<le> length s \<and> fits hi (length s) \<and> list_all P s)"
proof -
  have "regex_test [Rep P lo hi] s = 
     (\<exists>k. k \<le> length s \<and> lo \<le> k \<and> fits hi k \<and> list_all P (take k s) \<and> drop k s = [])"
    by (simp only: regex_test_Rep regex_test.simps(1))
  also have "\<dots> = (lo \<le> length s \<and> fits hi (length s) \<and> list_all P s)"
  proof
    assume "\<exists>k. k \<le> length s \<and> lo \<le> k \<and> fits hi k \<and> list_all P (take k s) \<and> drop k s = []"
    then obtain k where k: "k \<le> length s" "lo \<le> k" "fits hi k" "list_all P (take k s)" "drop k s = []"
      by blast
    then have "k = length s" by simp
    with k show "lo \<le> length s \<and> fits hi (length s) \<and> list_all P s" by simp
  next
    assume "lo \<le> length s \<and> fits hi (length s) \<and> list_all P s"
    then have "length s \<le> length s \<and> lo \<le> length s \<and> fits hi (length s) \<and> list_all P (take (length s) s) \<and> drop (length s) s = []"
      by simp
    then show "\<exists>k. k \<le> length s \<and> lo \<le> k \<and> fits hi k \<and> list_all P (take k s) \<and> drop k s = []"
      by blast
  qed
  finally show ?thesis .
qed

lemma regex_test_Rep_split:
  "regex_test (Rep P lo hi # atoms) s =
     (\<exists>a b. s = a @ b \<and> lo \<le> length a \<and> fits hi (length a) \<and> list_all P a \<and> regex_test atoms b)"
proof
  assume "regex_test (Rep P lo hi # atoms) s"
  then obtain k where k: "k \<le> length s" "lo \<le> k" "fits hi k" "list_all P (take k s)"
      "regex_test atoms (drop k s)"
    unfolding regex_test_Rep by blast
  then have "s = take k s @ drop k s \<and> lo \<le> length (take k s) \<and> fits hi (length (take k s))
      \<and> list_all P (take k s) \<and> regex_test atoms (drop k s)"
    by (simp add: min_def)
  then show "\<exists>a b. s = a @ b \<and> lo \<le> length a \<and> fits hi (length a) \<and> list_all P a \<and> regex_test atoms b"
    by blast
next
  assume "\<exists>a b. s = a @ b \<and> lo \<le> length a \<and> fits hi (length a) \<and> list_all P a \<and> regex_test atoms b"
  then obtain a b where ab: "s = a @ b" "lo \<le> length a" "fits hi (length a)" "list_all P a"
      "regex_test atoms b"
    by blast
  then have "length a \<le> length s \<and> lo \<le> length a \<and> fits hi (length a)
      \<and> list_all P (take (length a) s) \<and> regex_test atoms (drop (length a) s)"
    by simp
  then show "regex_test (Rep P lo hi # atoms) s"
    unfolding regex_test_Rep by blast
qed

lemma regex_test_literal:
  "regex_test (literal c # atoms) s = (\<exists>b. s = c # b \<and> regex_test atoms b)"
proof -
  have "regex_test (literal c # atoms) s =
      (\<exists>a b. s = a @ b \<and> 1 \<le> length a \<and> length a \<le> 1 \<and> list_all (\<lambda>d. d = c) a \<and> regex_test atoms b)"
    unfolding literal_def regex_test_Rep_split by simp
  also have "\<dots> = (\<exists>b. s = c # b \<and> regex_test atoms b)"
  proof
    assume "\<exists>a b. s = a @ b \<and> 1 \<le> length a \<and> length a \<le> 1 \<and> list_all (\<lambda>d. d = c) a \<and> regex_test atoms b"
    then obtain a b where ab: "s = a @ b" "1 \<le> length a" "length a \<le> 1" "list_all (\<lambda>d. d = c) a"
        "regex_test atoms b"
      by blast
    then have "a = [c]" by (cases a) auto
    with ab show "\<exists>b. s = c # b \<and> regex_test atoms b" by simp
  next
    assume "\<exists>b. s = c # b \<and> regex_test atoms b"
    then obtain b where "s = c # b" "regex_test atoms b" by blast
    then have "s = [c] @ b \<and> 1 \<le> length [c] \<and> length [c] \<le> 1 \<and> list_all (\<lambda>d. d = c) [c] \<and> regex_test atoms b"
      by simp
    then show "\<exists>a b. s = a @ b \<and> 1 \<le> length a \<and> length a \<le> 1 \<and> list_all (\<lambda>d. d = c) a \<and> regex_test atoms b"
      by blast
  qed
  finally show ?thesis .
qed

lemma PATTERN_name_contract: "regex_test PATTERN_name s = name_contract s"
  by (simp add: PATTERN_name_def name_contract_def regex_test_single)

lemma PATTERN_phone_contract: "regex_test PATTERN_phone s = phone_contract s"
  by (simp add: PATTERN_phone_def phone_contract_def regex_test_single)

lemma PATTERN_message_contract: "regex_test PATTERN_message s = message_contract s"
proof -
  have "list_all (\<lambda>c. is_space c \<or> \<not> is_space c) s"
    by (simp add: list_all_iff)
  then show ?thesis
    by (simp add: PATTERN_message_def message_contract_def regex_test_single)
qed

lemma PATTERN_email_contract: "regex_test PATTERN_email s = email_contract s"
proof
  assume "regex_test PATTERN_email s"
  then obtain l r1 where 1: "s = l @ r1" "1 \<le> length l" "list_all email_local_char l"
      "regex_test [literal 0x40, Rep email_domain_char 1 None, literal 0x2E,
        Rep email_tld_char 2 (Some 254)] r1"
    unfolding PATTERN_email_def regex_test_Rep_split [of email_local_char] by auto
  from 1(4) obtain r2 where 2: "r1 = 0x40 # r2"
      "regex_test [Rep email_domain_char 1 None, literal 0x2E, Rep email_tld_char 2 (Some 254)] r2"
    unfolding regex_test_literal by blast
  from 2(2) obtain d r3 where 3: "r2 = d @ r3" "1 \<le> length d" "list_all email_domain_char d"
      "regex_test [literal 0x2E, Rep email_tld_char 2 (Some 254)] r3"
    unfolding regex_test_Rep_split [of email_domain_char] by auto
  from 3(4) obtain t where 4: "r3 = 0x2E # t" "regex_test [Rep email_tld_char 2 (Some 254)] t"
    unfolding regex_test_literal by blast
  from 4(2) have 5: "2 \<le> length t" "length t \<le> 254" "list_all email_tld_char t"
    by (simp_all add: regex_test_single)
  from 1 2 3 4 have "s = l @ [0x40] @ d @ [0x2E] @ t" by simp
  moreover from 1 3 have "l \<noteq> []" "d \<noteq> []" by auto
  ultimately show "email_contract s"
    unfolding email_contract_def using 1(3) 3(3) 5 by blast
next
  assume "email_contract s"
  then obtain l d t where s: "s = l @ [0x40] @ d @ [0x2E] @ t"
    and l: "l \<noteq> []" "list_all email_local_char l"
    and d: "d \<noteq> []" "list_all email_domain_char d"
    and t: "2 \<le> length t" "length t \<le> 254" "list_all email_tld_char t"
    unfolding email_contract_def by blast
  from t have 5: "regex_test [Rep email_tld_char 2 (Some 254)] t"
    by (simp add: regex_test_single)
  then have 4: "regex_test [literal 0x2E, Rep email_tld_char 2 (Some 254)] (0x2E # t)"
    unfolding regex_test_literal by blast
  from d have "1 \<le> length d" by (cases d) auto
  with d 4 have "d @ 0x2E # t = d @ (0x2E # t) \<and> 1 \<le> length d \<and> fits None (length d) \<and> list_all email_domain_char d
     \<and> regex_test [literal 0x2E, Rep email_tld_char 2 (Some 254)] (0x2E # t)"
    by simp
  then have 3: "regex_test [Rep email_domain_char 1 None, literal 0x2E, Rep email_tld_char 2 (Some 254)]
      (d @ 0x2E # t)"
    unfolding regex_test_Rep_split [of email_domain_char] by blast
  then have 2: "regex_test [literal 0x40, Rep email_domain_char 1 None, literal 0x2E,
      Rep email_tld_char 2 (Some 254)] (0x40 # d @ 0x2E # t)"
    unfolding regex_test_literal by blast
  from l have "1 \<le> length l" by (cases l) auto
  with l 2 have "s = l @ (0x40 # d @ 0x2E # t) \<and> 1 \<le> length l \<and> fits None (length l) \<and> list_all email_local_char l
     \<and> regex_test [literal 0x40, Rep email_domain_char 1 None, literal 0x2E,
      Rep email_tld_char 2 (Some 254)] (0x40 # d @ 0x2E # t)"
    using s by simp
  then show "regex_test PATTERN_email s"
    unfolding PATTERN_email_def regex_test_Rep_split [of email_local_char] by blast
qed

lemma trim_Nil: "trim [] = []"
  by (simp add: trim_def)

lemma trim_blank: "list_all is_space s \<Longrightarrow> trim s = []"
proof -
  assume "list_all is_space s"
  then have "\<forall>c\<in>set s. is_space c"
    by (simp add: list_all_iff)
  then have blank: "dropWhile is_space s = []"
    by (simp only: dropWhile_eq_Nil_conv)
  show ?thesis unfolding trim_def blank by simp
qed

text \<open>
  The scan of \<open>strip_tags\<close> against the pattern of the source: the pattern matches
  exactly the tag-shaped strings; a match begins at a position exactly when the code unit
  there is \<^verbatim>\<open><\<close> and a \<^verbatim>\<open>>\<close> follows; and there is then one match only, up to the
  first \<^verbatim>\<open>>\<close>, so that greedy matching has no choice to make.
\<close>

lemma PATTERN_tag_shape: "regex_test PATTERN_tag t = tag_shaped t"
proof
  assume "regex_test PATTERN_tag t"
  then obtain r1 where 1: "t = LT # r1" "regex_test [Rep (\<lambda>c. c \<noteq> GT) 0 None, literal GT] r1"
    unfolding PATTERN_tag_def regex_test_literal by blast
  from 1(2) obtain m r2 where 2: "r1 = m @ r2" "list_all (\<lambda>c. c \<noteq> GT) m" "regex_test [literal GT] r2"
    unfolding regex_test_Rep_split [of "\<lambda>c. c \<noteq> GT"] by blast
  from 2(3) have 3: "r2 = [GT]"
    unfolding regex_test_literal by simp
  from 2(2) have "GT \<notin> set m" by (auto simp: list_all_iff)
  with 1 2 3 show "tag_shaped t" by (auto simp: tag_shaped_def)
next
  assume "tag_shaped t"
  then obtain m where t: "t = LT # m @ [GT]" and m: "GT \<notin> set m"
    by (auto simp: tag_shaped_def)
  have 3: "regex_test [literal GT] [GT]"
    unfolding regex_test_literal by simp
  from m have "list_all (\<lambda>c. c \<noteq> GT) m" by (auto simp: list_all_iff)
  with 3 have "m @ [GT] = m @ [GT] \<and> 0 \<le> length m \<and> fits None (length m)
      \<and> list_all (\<lambda>c. c \<noteq> GT) m \<and> regex_test [literal GT] [GT]"
    by simp
  then have "regex_test [Rep (\<lambda>c. c \<noteq> GT) 0 None, literal GT] (m @ [GT])"
    unfolding regex_test_Rep_split [of "\<lambda>c. c \<noteq> GT"] by blast
  then show "regex_test PATTERN_tag t"
    unfolding PATTERN_tag_def regex_test_literal t by simp
qed

lemma tag_match_at:
  "(\<exists>t rest. c # cs = t @ rest \<and> regex_test PATTERN_tag t) = (c = LT \<and> GT \<in> set cs)"
proof
  assume "\<exists>t rest. c # cs = t @ rest \<and> regex_test PATTERN_tag t"
  then obtain m rest where "c # cs = (LT # m @ [GT]) @ rest"
    unfolding PATTERN_tag_shape tag_shaped_def by blast
  then show "c = LT \<and> GT \<in> set cs" by auto
next
  assume a: "c = LT \<and> GT \<in> set cs"
  then have cs: "cs = takeWhile (\<lambda>d. d \<noteq> GT) cs @ GT # tl (dropWhile (\<lambda>d. d \<noteq> GT) cs)"
    using first_tag_split by blast
  have "GT \<notin> set (takeWhile (\<lambda>d. d \<noteq> GT) cs)"
    by (auto dest: set_takeWhileD)
  then have "tag_shaped (LT # takeWhile (\<lambda>d. d \<noteq> GT) cs @ [GT])"
    by (auto simp: tag_shaped_def)
  moreover have "c # cs = (LT # takeWhile (\<lambda>d. d \<noteq> GT) cs @ [GT]) @ tl (dropWhile (\<lambda>d. d \<noteq> GT) cs)"
    using a cs by simp
  ultimately show "\<exists>t rest. c # cs = t @ rest \<and> regex_test PATTERN_tag t"
    unfolding PATTERN_tag_shape by blast
qed

lemma tag_match_unique:
  assumes "c # cs = t @ rest" and "regex_test PATTERN_tag t"
  shows "t = LT # takeWhile (\<lambda>d. d \<noteq> GT) cs @ [GT] \<and> rest = tl (dropWhile (\<lambda>d. d \<noteq> GT) cs)"
proof -
  from assms(2) obtain m where t: "t = LT # m @ [GT]" and m: "GT \<notin> set m"
    unfolding PATTERN_tag_shape tag_shaped_def by blast
  with assms(1) have cs: "cs = m @ GT # rest" by simp
  from m have "takeWhile (\<lambda>d. d \<noteq> GT) cs = m \<and> dropWhile (\<lambda>d. d \<noteq> GT) cs = GT # rest"
    unfolding cs by (induction m) auto
  with t show ?thesis by simp
qed

text \<open>
  The matcher's equations in a form that evaluates a concrete match from the outside in.
\<close>

lemma regex_test_step:
  "regex_test (Rep P lo hi # atoms) (c # cs) =
     (if lo = 0
      then (if regex_test atoms (c # cs) then True
            else if can_take hi
            then (if P c then regex_test (Rep P 0 (one_less hi) # atoms) cs else False)
            else False)
      else if can_take hi
      then (if P c then regex_test (Rep P (lo - 1) (one_less hi) # atoms) cs else False)
      else False)"
  by auto

lemma regex_test_end:
  "regex_test (Rep P lo hi # atoms) [] = (if lo = 0 then regex_test atoms [] else False)"
  by simp

lemmas char_classes =
  is_space_def is_digit_def is_lower_def is_upper_def name_char_def email_local_char_def
  email_domain_char_def email_tld_char_def phone_char_def literal_def

lemmas validator_defs =
  validateFormData_def required_text_fails_def phone_fails_def subject_fails_def andThen_def
  error_if_def array_includes_def ALLOWED_SUBJECTS_def trim_def Let_def
  PATTERN_name_def PATTERN_email_def PATTERN_phone_def PATTERN_message_def ustr_def
  char_classes regex_test_step regex_test_end

subsection \<open>Validator\<close>

lemma get_prop_field:
  "data \<noteq> JUndefined \<Longrightarrow> data \<noteq> JNull \<Longrightarrow> get_prop data k = Inr (field data k)"
  by (cases data) (simp_all add: field_def)

lemma required_text_fails_result:
  "required_text_fails pattern v =
     Inr (\<not> (case v of JStr s \<Rightarrow> s \<noteq> [] \<and> regex_test pattern (trim s) | _ \<Rightarrow> False))"
  by (cases v) (simp_all add: required_text_fails_def andThen_def)

lemma phone_fails_result:
  "phone_fails v =
     Inr (case v of JStr s \<Rightarrow> s \<noteq> [] \<and> trim s \<noteq> [] \<and> \<not> regex_test PATTERN_phone (trim s)
          | _ \<Rightarrow> False)"
  by (cases v) (simp_all add: phone_fails_def andThen_def)

lemma subject_fails_result: "subject_fails v = Inr (\<not> subject_contract v)"
proof -
  have "array_includes ALLOWED_SUBJECTS v = subject_contract v"
    by (auto simp: array_includes_def ALLOWED_SUBJECTS_def subject_contract_def)
  moreover have "\<not> truthy v \<Longrightarrow> \<not> subject_contract v"
    by (auto simp: subject_contract_def ustr_def)
  ultimately show ?thesis by (auto simp: subject_fails_def)
qed

lemma name_fails_contract:
  "required_text_fails PATTERN_name v = Inr (\<not> text_ok name_contract trim v)"
proof (cases v)
  case (JStr s)
  have "\<not> name_contract []"
    by (simp add: name_contract_def)
  then have "name_contract (trim s) \<Longrightarrow> s \<noteq> []"
    using trim_Nil by auto
  with JStr show ?thesis
    by (auto simp: required_text_fails_result text_ok_def PATTERN_name_contract)
qed (simp_all add: required_text_fails_result text_ok_def)

lemma email_fails_contract:
  "required_text_fails PATTERN_email v = Inr (\<not> text_ok email_contract trim v)"
proof (cases v)
  case (JStr s)
  have "\<not> email_contract []"
    by (simp add: email_contract_def)
  then have "email_contract (trim s) \<Longrightarrow> s \<noteq> []"
    using trim_Nil by auto
  with JStr show ?thesis
    by (auto simp: required_text_fails_result text_ok_def PATTERN_email_contract)
qed (simp_all add: required_text_fails_result text_ok_def)

lemma message_fails_contract:
  "required_text_fails PATTERN_message v = Inr (\<not> text_ok message_contract trim v)"
proof (cases v)
  case (JStr s)
  have "\<not> message_contract []"
    by (simp add: message_contract_def)
  then have "message_contract (trim s) \<Longrightarrow> s \<noteq> []"
    using trim_Nil by auto
  with JStr show ?thesis
    by (auto simp: required_text_fails_result text_ok_def PATTERN_message_contract)
qed (simp_all add: required_text_fails_result text_ok_def)

lemma phone_fails_contract:
  assumes "v = JUndefined \<or> v = JNull \<or> (\<exists>s. v = JStr s)"
  shows "phone_fails v = Inr (\<not> phone_ok trim v)"
proof (cases v)
  case (JStr s)
  have empty: "phone_contract []"
    by (simp add: phone_contract_def)
  have "s = [] \<Longrightarrow> phone_contract (trim s)"
    using empty trim_Nil by simp
  moreover have "trim s = [] \<Longrightarrow> phone_contract (trim s)"
    using empty by simp
  moreover have "list_all is_space s \<Longrightarrow> phone_contract (trim s)"
    using empty by (simp add: trim_blank)
  ultimately show ?thesis using JStr
    by (auto simp: phone_fails_result phone_ok_def PATTERN_phone_contract)
qed (use assms in \<open>simp_all add: phone_fails_result phone_ok_def\<close>)

lemma phone_fails_rejected: "phone_fails v = Inr (phone_rejected v)"
  by (cases v) (simp_all add: phone_fails_result phone_rejected_def PATTERN_phone_contract)

lemma validateFormData_result:
  assumes "data \<noteq> JUndefined" and "data \<noteq> JNull"
  shows "validateFormData data =
     Inr \<lparr>valid = (text_ok name_contract trim (field data ''name'')
                   \<and> text_ok email_contract trim (field data ''email'')
                   \<and> \<not> phone_rejected (field data ''phone'')
                   \<and> subject_contract (field data ''subject'')
                   \<and> text_ok message_contract trim (field data ''message'')),
          errors = error_if (\<not> text_ok name_contract trim (field data ''name'')) ''name'' ''Invalid name''
             @ error_if (\<not> text_ok email_contract trim (field data ''email'')) ''email'' ''Invalid email''
             @ error_if (phone_rejected (field data ''phone'')) ''phone'' ''Invalid phone''
             @ error_if (\<not> subject_contract (field data ''subject'')) ''subject'' ''Invalid subject''
             @ error_if (\<not> text_ok message_contract trim (field data ''message'')) ''message'' ''Invalid message''\<rparr>"
  unfolding validateFormData_def get_prop_field [OF assms] name_fails_contract
    email_fails_contract message_fails_contract subject_fails_result phone_fails_rejected
  by (simp add: andThen_def Let_def error_if_def)

lemma phone_rejected_contract:
  assumes "phone_absent_or_string data"
  shows "phone_rejected (field data ''phone'') = (\<not> phone_ok trim (field data ''phone''))"
proof -
  from assms have "field data ''phone'' = JUndefined \<or> field data ''phone'' = JNull
      \<or> (\<exists>s. field data ''phone'' = JStr s)"
    by (cases "field data ''phone''") (simp_all add: phone_absent_or_string_def)
  then have "phone_fails (field data ''phone'') = Inr (\<not> phone_ok trim (field data ''phone''))"
    by (rule phone_fails_contract)
  then show ?thesis by (simp add: phone_fails_rejected)
qed

lemmas contract_defs =
  field_ok_def FIELDS_def field_def submission_def text_ok_def phone_ok_def name_contract_def
  message_contract_def phone_contract_def subject_contract_def

text \<open>
  C4 as stated, with each contract applied to the field as submitted, fails in both
  directions. A message of ten spaces is 10 characters long, yet the validator reports
  the message; an email with a leading space does not match the email pattern, yet the
  validator accepts the submission. The validator tests the trimmed text.
\<close>

theorem validateFormData_untrimmed_counterexample:
  "list_all (field_ok (\<lambda>s. s)
      (submission ''Marco Rossi'' ''marco@example.com'' ''info'' ''          '')) FIELDS
   \<and> validateFormData (submission ''Marco Rossi'' ''marco@example.com'' ''info'' ''          '')
       = Inr \<lparr>valid = False, errors = [(''message'', ''Invalid message'')]\<rparr>
   \<and> \<not> list_all (field_ok (\<lambda>s. s)
      (submission ''Marco Rossi'' '' marco@example.com'' ''info'' ''Ten chars!'')) FIELDS
   \<and> validateFormData (submission ''Marco Rossi'' '' marco@example.com'' ''info'' ''Ten chars!'')
       = Inr \<lparr>valid = True, errors = []\<rparr>"
proof -
  have good: "email_contract (ustr ''marco@example.com'')"
    unfolding PATTERN_email_contract [symmetric]
    by (simp add: validator_defs del: regex_test.simps(2,3))
  have bad: "\<not> email_contract (ustr '' marco@example.com'')"
    unfolding PATTERN_email_contract [symmetric]
    by (simp add: validator_defs del: regex_test.simps(2,3))
  have 1: "list_all (field_ok (\<lambda>s. s)
      (submission ''Marco Rossi'' ''marco@example.com'' ''info'' ''          '')) FIELDS"
    using good by (simp add: contract_defs ustr_def char_classes)
  have 2: "validateFormData (submission ''Marco Rossi'' ''marco@example.com'' ''info'' ''          '')
       = Inr \<lparr>valid = False, errors = [(''message'', ''Invalid message'')]\<rparr>"
    by (simp add: submission_def validator_defs del: regex_test.simps(2,3))
  have 3: "\<not> list_all (field_ok (\<lambda>s. s)
      (submission ''Marco Rossi'' '' marco@example.com'' ''info'' ''Ten chars!'')) FIELDS"
    using bad by (simp add: contract_defs ustr_def char_classes)
  have 4: "validateFormData (submission ''Marco Rossi'' '' marco@example.com'' ''info'' ''Ten chars!'')
       = Inr \<lparr>valid = True, errors = []\<rparr>"
    by (simp add: submission_def validator_defs del: regex_test.simps(2,3))
  from 1 2 3 4 show ?thesis by blast
qed

text \<open>
  C4, amended. For a submission whose phone field is absent or a string, the validator
  returns \<open>valid = true\<close> with no errors exactly when every field meets its whitelist
  contract on its value without leading and trailing white space (name, 2 to 100 allowed
  characters; email of the pattern's shape; phone absent, blank or of its pattern; subject
  in the enumeration; message, 10 to 2000 characters). Otherwise \<open>valid = false\<close> and
  the keys of \<open>errors\<close> are exactly the fields that fail, all of them in one pass.
\<close>

theorem validateFormData_whitelist_trimmed:
  assumes "data \<noteq> JUndefined" and "data \<noteq> JNull" and "phone_absent_or_string data"
  shows "\<exists>res. validateFormData data = Inr res
           \<and> valid res = list_all (field_ok trim data) FIELDS
           \<and> valid res = (errors res = [])
           \<and> map fst (errors res) = filter (\<lambda>k. \<not> field_ok trim data k) FIELDS"
proof -
  let ?res = "\<lparr>valid = (text_ok name_contract trim (field data ''name'')
                   \<and> text_ok email_contract trim (field data ''email'')
                   \<and> \<not> phone_rejected (field data ''phone'')
                   \<and> subject_contract (field data ''subject'')
                   \<and> text_ok message_contract trim (field data ''message'')),
          errors = error_if (\<not> text_ok name_contract trim (field data ''name'')) ''name'' ''Invalid name''
             @ error_if (\<not> text_ok email_contract trim (field data ''email'')) ''email'' ''Invalid email''
             @ error_if (phone_rejected (field data ''phone'')) ''phone'' ''Invalid phone''
             @ error_if (\<not> subject_contract (field data ''subject'')) ''subject'' ''Invalid subject''
             @ error_if (\<not> text_ok message_contract trim (field data ''message'')) ''message'' ''Invalid message''\<rparr>"
  have res: "validateFormData data = Inr ?res"
    by (rule validateFormData_result [OF assms(1,2)])
  have ph: "phone_rejected (field data ''phone'') = (\<not> phone_ok trim (field data ''phone''))"
    by (rule phone_rejected_contract [OF assms(3)])
  have 1: "valid ?res = list_all (field_ok trim data) FIELDS"
    by (simp add: ph field_ok_def FIELDS_def)
  have 2: "valid ?res = (errors ?res = [])"
    by (simp add: error_if_def)
  have 3: "map fst (errors ?res) = filter (\<lambda>k. \<not> field_ok trim data k) FIELDS"
    by (simp add: ph field_ok_def FIELDS_def error_if_def)
  from res 1 2 3 show ?thesis by blast
qed

theorem validateFormData_whitelist_trimmed_witness:
  "submission ''<img onerror=alert(1)>'' ''test@example.com'' ''info'' ''Test message content here.''
     \<noteq> JUndefined
   \<and> submission ''<img onerror=alert(1)>'' ''test@example.com'' ''info'' ''Test message content here.''
     \<noteq> JNull
   \<and> phone_absent_or_string
       (submission ''<img onerror=alert(1)>'' ''test@example.com'' ''info'' ''Test message content here.'')
   \<and> validateFormData
       (submission ''<img onerror=alert(1)>'' ''test@example.com'' ''info'' ''Test message content here.'')
       = Inr \<lparr>valid = False, errors = [(''name'', ''Invalid name'')]\<rparr>
   \<and> \<not> list_all (field_ok trim
       (submission ''<img onerror=alert(1)>'' ''test@example.com'' ''info'' ''Test message content here.''))
       FIELDS
   \<and> filter (\<lambda>k. \<not> field_ok trim
       (submission ''<img onerror=alert(1)>'' ''test@example.com'' ''info'' ''Test message content here.'') k)
       FIELDS = [''name'']"
proof -
  let ?data = "submission ''<img onerror=alert(1)>'' ''test@example.com'' ''info''
      ''Test message content here.''"
  have a: "?data \<noteq> JUndefined" "?data \<noteq> JNull"
    by (simp_all add: submission_def)
  have b: "phone_absent_or_string ?data"
    by (simp add: phone_absent_or_string_def field_def submission_def ustr_def)
  have c: "validateFormData ?data = Inr \<lparr>valid = False, errors = [(''name'', ''Invalid name'')]\<rparr>"
    by (simp add: submission_def validator_defs del: regex_test.simps(2,3))
  from validateFormData_whitelist_trimmed [OF a b] c
  have "\<not> list_all (field_ok trim ?data) FIELDS"
    and "filter (\<lambda>k. \<not> field_ok trim ?data k) FIELDS = [''name'']"
    by auto
  with a b c show ?thesis by blast
qed

text \<open>
  C10. On every value that is not \<^verbatim>\<open>undefined\<close> or \<^verbatim>\<open>null\<close>, whatever the types of
  its fields, the validator returns a result and throws nothing, although \<^verbatim>\<open>.trim()\<close>
  on a value that is not a string would throw.
\<close>

theorem validateFormData_total:
  assumes "data \<noteq> JUndefined" and "data \<noteq> JNull"
  shows "\<exists>res. validateFormData data = Inr res"
  using validateFormData_result [OF assms] by blast


theorem validateFormData_total_witness:
  "JObj [(ustr ''name'', JNum 42), (ustr ''email'', JArr [JNull]), (ustr ''phone'', JBool True),
         (ustr ''subject'', JObj []), (ustr ''message'', JNull)] \<noteq> JUndefined
   \<and> JObj [(ustr ''name'', JNum 42), (ustr ''email'', JArr [JNull]), (ustr ''phone'', JBool True),
         (ustr ''subject'', JObj []), (ustr ''message'', JNull)] \<noteq> JNull
   \<and> validateFormData
        (JObj [(ustr ''name'', JNum 42), (ustr ''email'', JArr [JNull]), (ustr ''phone'', JBool True),
               (ustr ''subject'', JObj []), (ustr ''message'', JNull)])
       = Inr \<lparr>valid = False,
              errors = [(''name'', ''Invalid name''), (''email'', ''Invalid email''),
                        (''subject'', ''Invalid subject''), (''message'', ''Invalid message'')]\<rparr>"
  using validateFormData_total
    [of "JObj [(ustr ''name'', JNum 42), (ustr ''email'', JArr [JNull]), (ustr ''phone'', JBool True),
               (ustr ''subject'', JObj []), (ustr ''message'', JNull)]"]
  by (simp add: validator_defs del: regex_test.simps(2,3))


subsection \<open>Handler\<close>

lemma honeypot_is_object:
  assumes "truthy (field body ''honeypot'')"
  shows "body_or_empty body = body \<and> get_prop body ''honeypot'' = Inr (field body ''honeypot'')"
  using assms by (cases body) (simp_all add: field_def body_or_empty_def)

lemma body_or_empty_defined:
  "body_or_empty raw_body \<noteq> JUndefined \<and> body_or_empty raw_body \<noteq> JNull"
  by (cases raw_body) (simp_all add: body_or_empty_def)

lemma read_message_throws:
  "(\<exists>text. read_message err = Inr text) = (err \<noteq> Thrown JNull \<and> err \<noteq> Thrown JUndefined)"
proof (cases err)
  case (Thrown v)
  then show ?thesis by (cases v) simp_all
qed simp_all

lemma caught_TypeError:
  "caught (TypeError m) done =
     (Inr (respond 500 ''Internal server error.''),
      done @ [ConsoleError ''Contact form error:'' (JStr (ustr m))])"
  by (simp add: caught_def)

text \<open>
  A submission that passes the decoy check, validation and sanitizing, with the schema
  read and the storage call returned: what the handler does with the notification.
\<close>

lemma admitted_stored:
  assumes "\<not> truthy (field (body_or_empty raw_body) ''honeypot'')"
    and "validateFormData (body_or_empty raw_body) = Inr validation"
    and "valid validation"
    and "sanitize (body_or_empty raw_body) ip = Inr d"
    and "getSchema svc = None"
    and "createOne svc d = None"
  shows "admitted svc ip raw_body =
     (case send svc (mail_of (ADMIN_EMAIL svc) d) of
        None \<Rightarrow>
          (Inr (respond 200 ''Message received successfully.''),
           [CreateOne d, MailSend (mail_of (ADMIN_EMAIL svc) d)])
      | Some mailErr \<Rightarrow>
          (case read_message mailErr of
             Inl thrown \<Rightarrow> caught thrown [CreateOne d, MailSend (mail_of (ADMIN_EMAIL svc) d)]
           | Inr text \<Rightarrow>
               (Inr (respond 200 ''Message received successfully.''),
                [CreateOne d, MailSend (mail_of (ADMIN_EMAIL svc) d),
                 ConsoleError ''Email notification failed:'' text])))"
proof -
  have "get_prop (body_or_empty raw_body) ''honeypot''
      = Inr (field (body_or_empty raw_body) ''honeypot'')"
    using body_or_empty_defined by (simp add: get_prop_field)
  with assms show ?thesis
    by (simp add: admitted_def Let_def)
qed

lemma genuine_validation:
  "validateFormData genuine_body = Inr \<lparr>valid = True, errors = []\<rparr>"
  by (simp add: genuine_body_def submission_def validator_defs del: regex_test.simps(2,3))

lemma genuine_sanitize:
  "sanitize genuine_body (ustr ''203.0.113.7'') = Inr genuine_sanitized"
  by (simp add: genuine_body_def genuine_sanitized_def submission_def sanitize_def andThen_def
      toLowerCase_def trim_def ustr_def char_classes LT_def GT_def)

lemma genuine_body_kept: "body_or_empty genuine_body = genuine_body"
  by (simp add: body_or_empty_def genuine_body_def submission_def)

lemma genuine_no_honeypot: "field genuine_body ''honeypot'' = JUndefined"
  by (simp add: field_def genuine_body_def submission_def ustr_def)

lemma request_body: "req_body (request_from address body) = body"
  by (simp add: request_from_def)

lemma clientIp_request_from:
  "clientIp (request_from ''203.0.113.7'' body) = ustr ''203.0.113.7''"
  by (simp add: clientIp_def request_from_def ustr_def)

lemma first_request_admitted:
  "isRateLimited 0 rateLimitStore_init (ustr ''203.0.113.7'') =
     (False, Map.empty(ustr ''203.0.113.7'' \<mapsto> \<lparr>count = 1, firstRequest = 0\<rparr>))"
  by (simp add: isRateLimited_def rateLimitStore_init_def)

lemma genuine_admitted:
  assumes "getSchema svc = None" and "createOne svc genuine_sanitized = None"
  shows "admitted svc (ustr ''203.0.113.7'') genuine_body =
     (case send svc (mail_of (ADMIN_EMAIL svc) genuine_sanitized) of
        None \<Rightarrow>
          (Inr (respond 200 ''Message received successfully.''),
           [CreateOne genuine_sanitized, MailSend (mail_of (ADMIN_EMAIL svc) genuine_sanitized)])
      | Some mailErr \<Rightarrow>
          (case read_message mailErr of
             Inl thrown \<Rightarrow>
               caught thrown
                 [CreateOne genuine_sanitized,
                  MailSend (mail_of (ADMIN_EMAIL svc) genuine_sanitized)]
           | Inr text \<Rightarrow>
               (Inr (respond 200 ''Message received successfully.''),
                [CreateOne genuine_sanitized,
                 MailSend (mail_of (ADMIN_EMAIL svc) genuine_sanitized),
                 ConsoleError ''Email notification failed:'' text])))"
proof (rule admitted_stored)
  show "\<not> truthy (field (body_or_empty genuine_body) ''honeypot'')"
    by (simp add: genuine_body_kept genuine_no_honeypot)
  show "validateFormData (body_or_empty genuine_body) = Inr \<lparr>valid = True, errors = []\<rparr>"
    by (simp add: genuine_body_kept genuine_validation)
  show "valid \<lparr>valid = True, errors = []\<rparr>"
    by simp
  show "sanitize (body_or_empty genuine_body) (ustr ''203.0.113.7'') = Inr genuine_sanitized"
    by (simp add: genuine_body_kept genuine_sanitize)
qed (use assms in simp_all)

text \<open>
  C1 as stated fails. A trapped submission is answered with status 200 and the body
  \<open>Thank you for your message.\<close>, a genuine accepted one with status 200 and the body
  \<open>Message received successfully.\<close>: the bodies differ. And the rate limiter comes
  before the decoy check, so a trapped submission over the quota is answered 429.
\<close>

theorem honeypot_response_counterexample:
  "fst (handler working_services 0 rateLimitStore_init (request_from ''203.0.113.7'' honeypot_body))
     = Inr (respond 200 ''Thank you for your message.'')
   \<and> fst (handler working_services 0 rateLimitStore_init (request_from ''203.0.113.7'' genuine_body))
     = Inr (respond 200 ''Message received successfully.'')
   \<and> fst (handler working_services 0 rateLimitStore_init (request_from ''203.0.113.7'' honeypot_body))
     \<noteq> fst (handler working_services 0 rateLimitStore_init (request_from ''203.0.113.7'' genuine_body))
   \<and> fst (handler working_services 0
        (run_calls rateLimitStore_init
          [(0, ustr ''203.0.113.7''), (0, ustr ''203.0.113.7''), (0, ustr ''203.0.113.7'')])
        (request_from ''203.0.113.7'' honeypot_body))
     = Inr (respond 429 ''Too many requests. Try again later.'')"
proof -
  note ip = clientIp_request_from
  have a: "fst (handler working_services 0 rateLimitStore_init
      (request_from ''203.0.113.7'' honeypot_body)) = Inr (respond 200 ''Thank you for your message.'')"
    unfolding handler_def ip first_request_admitted request_body
    by (simp add: admitted_def body_or_empty_def honeypot_body_def ustr_def)
  have b: "fst (handler working_services 0 rateLimitStore_init
      (request_from ''203.0.113.7'' genuine_body)) = Inr (respond 200 ''Message received successfully.'')"
  proof -
    have adm: "admitted working_services (ustr ''203.0.113.7'') genuine_body =
        (Inr (respond 200 ''Message received successfully.''),
         [CreateOne genuine_sanitized,
          MailSend (mail_of (ADMIN_EMAIL working_services) genuine_sanitized)])"
      using genuine_admitted [of working_services] by (simp add: working_services_def)
    show ?thesis
      unfolding handler_def ip first_request_admitted request_body adm by simp
  qed
  have c: "fst (handler working_services 0
        (run_calls rateLimitStore_init
          [(0, ustr ''203.0.113.7''), (0, ustr ''203.0.113.7''), (0, ustr ''203.0.113.7'')])
        (request_from ''203.0.113.7'' honeypot_body))
     = Inr (respond 429 ''Too many requests. Try again later.'')"
    unfolding handler_def ip
    by (simp add: isRateLimited_def rateLimitStore_init_def RATE_LIMIT_MAX_def
        RATE_LIMIT_WINDOW_MS_def)
  from a b c show ?thesis by (simp add: respond_def)
qed

text \<open>
  C1, amended. For every request that the rate limiter admits and whose body has a truthy
  honeypot field, whatever the other fields hold, the handler answers with status 200,
  the status of a genuine accepted submission, and the fixed body
  \<open>Thank you for your message.\<close>; it invokes neither the storage nor the mail
  collaborator and logs nothing.
\<close>

theorem honeypot_silent_success:
  assumes "\<not> fst (isRateLimited now store (clientIp req))"
    and "truthy (field (req_body req) ''honeypot'')"
  shows "handler svc now store req =
           (Inr (respond 200 ''Thank you for your message.''), [],
            snd (isRateLimited now store (clientIp req)))
         \<and> (case fst (handler svc now store req) of
               Inl thrown \<Rightarrow> False
             | Inr res \<Rightarrow> http_status res = 200)"
proof -
  from honeypot_is_object [OF assms(2)]
  have "admitted svc (clientIp req) (req_body req)
      = (Inr (respond 200 ''Thank you for your message.''), [])"
    using assms(2) by (simp add: admitted_def)
  with assms(1) show ?thesis
    by (cases "isRateLimited now store (clientIp req)") (simp add: handler_def respond_def)
qed

theorem honeypot_silent_success_witness:
  "\<not> fst (isRateLimited 0 rateLimitStore_init (clientIp (request_from ''203.0.113.7'' honeypot_body)))
   \<and> truthy (field (req_body (request_from ''203.0.113.7'' honeypot_body)) ''honeypot'')
   \<and> handler working_services 0 rateLimitStore_init (request_from ''203.0.113.7'' honeypot_body)
       = (Inr (respond 200 ''Thank you for your message.''), [],
          Map.empty(ustr ''203.0.113.7'' \<mapsto> \<lparr>count = 1, firstRequest = 0\<rparr>))"
proof -
  have a: "\<not> fst (isRateLimited 0 rateLimitStore_init
      (clientIp (request_from ''203.0.113.7'' honeypot_body)))"
    by (simp add: clientIp_request_from first_request_admitted)
  have b: "truthy (field (req_body (request_from ''203.0.113.7'' honeypot_body)) ''honeypot'')"
    by (simp add: request_from_def honeypot_body_def field_def ustr_def)
  from honeypot_silent_success [OF a b, of working_services] a b show ?thesis
    by (simp add: clientIp_request_from first_request_admitted)
qed

text \<open>
  C8. The handler breaks the claim when the mail service throws \<^verbatim>\<open>null\<close> or
  \<^verbatim>\<open>undefined\<close>. Take any request that the rate limiter admits, whose decoy field is not
  truthy, that passes validation and sanitizing, with the schema read and the storage
  call returned, so that the submission is admitted and stored, and let the mail service
  throw on the notification. When the thrown value has a \<^verbatim>\<open>message\<close> to read, as every
  \<^verbatim>\<open>Error\<close> object has, the handler logs \<open>Email notification failed:\<close> with it and answers
  200 with the success body, as the claim says. When the thrown value is \<^verbatim>\<open>null\<close> or
  \<^verbatim>\<open>undefined\<close>, reading \<^verbatim>\<open>mailErr.message\<close> throws inside the inner \<^verbatim>\<open>catch\<close>, the outer
  \<^verbatim>\<open>catch\<close> logs \<open>Contact form error:\<close> and the client receives 500, although the
  submission is stored. These are the only two cases.
\<close>

theorem notification_failure_outcome:
  assumes "\<not> fst (isRateLimited now store (clientIp req))"
    and "\<not> truthy (field (body_or_empty (req_body req)) ''honeypot'')"
    and "validateFormData (body_or_empty (req_body req)) = Inr validation"
    and "valid validation"
    and "sanitize (body_or_empty (req_body req)) (clientIp req) = Inr d"
    and "getSchema svc = None"
    and "createOne svc d = None"
    and "send svc (mail_of (ADMIN_EMAIL svc) d) = Some mailErr"
  shows "(\<forall>text. read_message mailErr = Inr text \<longrightarrow>
            handler svc now store req =
              (Inr (respond 200 ''Message received successfully.''),
               [CreateOne d, MailSend (mail_of (ADMIN_EMAIL svc) d),
                ConsoleError ''Email notification failed:'' text],
               snd (isRateLimited now store (clientIp req))))
         \<and> (mailErr = Thrown JNull \<or> mailErr = Thrown JUndefined \<longrightarrow>
            (\<exists>text. handler svc now store req =
              (Inr (respond 500 ''Internal server error.''),
               [CreateOne d, MailSend (mail_of (ADMIN_EMAIL svc) d),
                ConsoleError ''Contact form error:'' text],
               snd (isRateLimited now store (clientIp req)))))
         \<and> ((\<exists>text. read_message mailErr = Inr text)
              = (mailErr \<noteq> Thrown JNull \<and> mailErr \<noteq> Thrown JUndefined))"
proof -
  let ?m = "mail_of (ADMIN_EMAIL svc) d"
  let ?store = "snd (isRateLimited now store (clientIp req))"
  have adm: "admitted svc (clientIp req) (req_body req) =
      (case read_message mailErr of
         Inl thrown \<Rightarrow> caught thrown [CreateOne d, MailSend ?m]
       | Inr text \<Rightarrow>
           (Inr (respond 200 ''Message received successfully.''),
            [CreateOne d, MailSend ?m, ConsoleError ''Email notification failed:'' text]))"
    using admitted_stored [OF assms(2-7)] assms(8) by simp
  have run: "handler svc now store req =
      (fst (admitted svc (clientIp req) (req_body req)),
       snd (admitted svc (clientIp req) (req_body req)), ?store)"
    using assms(1)
    by (cases "isRateLimited now store (clientIp req)") (simp add: handler_def split: prod.splits)
  have readable: "\<forall>text. read_message mailErr = Inr text \<longrightarrow>
      handler svc now store req =
        (Inr (respond 200 ''Message received successfully.''),
         [CreateOne d, MailSend ?m, ConsoleError ''Email notification failed:'' text], ?store)"
    by (simp add: run adm)
  have unreadable: "mailErr = Thrown JNull \<or> mailErr = Thrown JUndefined \<longrightarrow>
      (\<exists>text. handler svc now store req =
        (Inr (respond 500 ''Internal server error.''),
         [CreateOne d, MailSend ?m, ConsoleError ''Contact form error:'' text], ?store))"
    by (auto simp: run adm caught_TypeError)
  from readable unreadable read_message_throws [of mailErr] show ?thesis
    by blast
qed

theorem notification_failure_outcome_witness:
  "handler mail_down_services 0 rateLimitStore_init (request_from ''203.0.113.7'' genuine_body)
     = (Inr (respond 200 ''Message received successfully.''),
        [CreateOne genuine_sanitized,
         MailSend (mail_of (ADMIN_EMAIL mail_down_services) genuine_sanitized),
         ConsoleError ''Email notification failed:'' (JStr (ustr ''SMTP connection refused''))],
        Map.empty(ustr ''203.0.113.7'' \<mapsto> \<lparr>count = 1, firstRequest = 0\<rparr>))
   \<and> send mail_null_services (mail_of (ADMIN_EMAIL mail_null_services) genuine_sanitized)
       = Some (Thrown JNull)
   \<and> createOne mail_null_services genuine_sanitized = None
   \<and> handler mail_null_services 0 rateLimitStore_init (request_from ''203.0.113.7'' genuine_body)
     = (Inr (respond 500 ''Internal server error.''),
        [CreateOne genuine_sanitized,
         MailSend (mail_of (ADMIN_EMAIL mail_null_services) genuine_sanitized),
         ConsoleError ''Contact form error:'' (JStr (ustr ''Cannot read properties of null''))],
        Map.empty(ustr ''203.0.113.7'' \<mapsto> \<lparr>count = 1, firstRequest = 0\<rparr>))"
proof -
  let ?req = "request_from ''203.0.113.7'' genuine_body"
  have admit: "\<not> fst (isRateLimited 0 rateLimitStore_init (clientIp ?req))"
    by (simp add: clientIp_request_from first_request_admitted)
  have store: "snd (isRateLimited 0 rateLimitStore_init (clientIp ?req))
      = Map.empty(ustr ''203.0.113.7'' \<mapsto> \<lparr>count = 1, firstRequest = 0\<rparr>)"
    by (simp add: clientIp_request_from first_request_admitted)
  have decoy: "\<not> truthy (field (body_or_empty (req_body ?req)) ''honeypot'')"
    by (simp add: request_body genuine_body_kept genuine_no_honeypot)
  have checked: "validateFormData (body_or_empty (req_body ?req))
      = Inr \<lparr>valid = True, errors = []\<rparr>"
    by (simp add: request_body genuine_body_kept genuine_validation)
  have passes: "valid \<lparr>valid = True, errors = []\<rparr>"
    by simp
  have clean: "sanitize (body_or_empty (req_body ?req)) (clientIp ?req) = Inr genuine_sanitized"
    by (simp add: request_body genuine_body_kept clientIp_request_from genuine_sanitize)
  have down: "getSchema mail_down_services = None"
    "createOne mail_down_services genuine_sanitized = None"
    "send mail_down_services (mail_of (ADMIN_EMAIL mail_down_services) genuine_sanitized)
      = Some (Error ''SMTP connection refused'')"
    by (simp_all add: mail_down_services_def)
  have null: "getSchema mail_null_services = None"
    "createOne mail_null_services genuine_sanitized = None"
    "send mail_null_services (mail_of (ADMIN_EMAIL mail_null_services) genuine_sanitized)
      = Some (Thrown JNull)"
    by (simp_all add: mail_null_services_def)
  have logged: "read_message (Error ''SMTP connection refused'')
      = Inr (JStr (ustr ''SMTP connection refused''))"
    by simp
  from notification_failure_outcome [OF admit decoy checked passes clean down] logged
  have swallowed: "handler mail_down_services 0 rateLimitStore_init ?req
     = (Inr (respond 200 ''Message received successfully.''),
        [CreateOne genuine_sanitized,
         MailSend (mail_of (ADMIN_EMAIL mail_down_services) genuine_sanitized),
         ConsoleError ''Email notification failed:'' (JStr (ustr ''SMTP connection refused''))],
        Map.empty(ustr ''203.0.113.7'' \<mapsto> \<lparr>count = 1, firstRequest = 0\<rparr>))"
    unfolding store by blast
  from notification_failure_outcome [OF admit decoy checked passes clean null]
  obtain msg where answered: "handler mail_null_services 0 rateLimitStore_init ?req
     = (Inr (respond 500 ''Internal server error.''),
        [CreateOne genuine_sanitized,
         MailSend (mail_of (ADMIN_EMAIL mail_null_services) genuine_sanitized),
         ConsoleError ''Contact form error:'' msg],
        Map.empty(ustr ''203.0.113.7'' \<mapsto> \<lparr>count = 1, firstRequest = 0\<rparr>))"
    unfolding store by blast
  have adm: "admitted mail_null_services (ustr ''203.0.113.7'') genuine_body =
      (Inr (respond 500 ''Internal server error.''),
       [CreateOne genuine_sanitized,
        MailSend (mail_of (ADMIN_EMAIL mail_null_services) genuine_sanitized),
        ConsoleError ''Contact form error:'' (JStr (ustr ''Cannot read properties of null''))])"
    using genuine_admitted [OF null(1,2)] null(3) by (simp add: caught_TypeError)
  have "msg = JStr (ustr ''Cannot read properties of null'')"
    using answered
    unfolding handler_def clientIp_request_from first_request_admitted request_body adm
    by simp
  with swallowed answered null show ?thesis by simp
qed

subsection \<open>Rate limiter\<close>

lemma isRateLimited_inv:
  assumes "store_inv store"
  shows "store_inv (snd (isRateLimited now store ip))"
  unfolding store_inv_def
proof (intro allI impI)
  fix ip' entry'
  assume new: "snd (isRateLimited now store ip) ip' = Some entry'"
  show "1 \<le> count entry' \<and> count entry' \<le> RATE_LIMIT_MAX"
  proof (cases "store ip")
    case None
    with new assms show ?thesis
      by (auto simp: store_inv_def isRateLimited_def RATE_LIMIT_MAX_def split: if_splits)
  next
    case (Some entry)
    with assms have bounds: "1 \<le> count entry" "count entry \<le> RATE_LIMIT_MAX"
      by (auto simp: store_inv_def)
    show ?thesis
    proof (cases "ip' = ip")
      case True
      with new Some bounds show ?thesis
        by (auto simp: isRateLimited_def RATE_LIMIT_MAX_def split: if_splits)
    next
      case False
      with new Some assms show ?thesis
        by (auto simp: store_inv_def isRateLimited_def split: if_splits)
    qed
  qed
qed

lemma run_calls_inv:
  "store_inv store \<Longrightarrow> store_inv (run_calls store calls)"
  by (induction calls arbitrary: store) (auto simp: isRateLimited_inv)

lemma store_inv_init: "store_inv rateLimitStore_init"
  by (simp add: store_inv_def rateLimitStore_init_def)

lemma isRateLimited_rejected_unchanged:
  "fst (isRateLimited now store ip) \<Longrightarrow> snd (isRateLimited now store ip) = store"
  by (auto simp: isRateLimited_def split: option.splits if_splits)

lemma isRateLimited_other_identity:
  "ip' \<noteq> ip \<Longrightarrow> snd (isRateLimited now store ip) ip' = store ip'"
  by (auto simp: isRateLimited_def split: option.splits)

lemma isRateLimited_expired:
  "store ip = Some entry \<Longrightarrow> now - firstRequest entry > RATE_LIMIT_WINDOW_MS \<Longrightarrow>
   isRateLimited now store ip = (False, store(ip \<mapsto> \<lparr>count = 1, firstRequest = now\<rparr>))"
  by (simp add: isRateLimited_def)

lemma isRateLimited_count_grows:
  assumes "store ip' = Some entry"
    and "1 \<le> count entry"
    and "snd (isRateLimited now store ip) ip' = Some entry'"
    and "count entry < count entry'"
  shows "ip' = ip \<and> \<not> fst (isRateLimited now store ip) \<and> count entry < RATE_LIMIT_MAX
         \<and> count entry' = count entry + 1 \<and> firstRequest entry' = firstRequest entry
         \<and> \<not> now - firstRequest entry > RATE_LIMIT_WINDOW_MS"
proof (cases "ip' = ip")
  case False
  with assms show ?thesis by (simp add: isRateLimited_other_identity)
next
  case True
  with assms show ?thesis
    by (auto simp: isRateLimited_def split: if_splits)
qed

text \<open>
  C2. With the maximum of 3, an identity that has no entry is admitted three times and
  rejected the fourth time when the attempts lie within one window length of the first;
  an attempt more than a window length after the first is admitted again.
\<close>

theorem rate_limit_three_per_window:
  assumes "store ip = None"
    and "t2 - t1 \<le> RATE_LIMIT_WINDOW_MS"
    and "t3 - t1 \<le> RATE_LIMIT_WINDOW_MS"
    and "t4 - t1 \<le> RATE_LIMIT_WINDOW_MS"
    and "t5 - t1 > RATE_LIMIT_WINDOW_MS"
  shows "RATE_LIMIT_MAX = 3
         \<and> attempts store ip [t1, t2, t3, t4, t5] = [True, True, True, False, True]"
  using assms by (simp add: isRateLimited_def RATE_LIMIT_MAX_def)

theorem rate_limit_three_per_window_witness:
  "rateLimitStore_init (ustr ''203.0.113.7'') = None
   \<and> (1000::int) - 0 \<le> RATE_LIMIT_WINDOW_MS
   \<and> (2000::int) - 0 \<le> RATE_LIMIT_WINDOW_MS
   \<and> (900000::int) - 0 \<le> RATE_LIMIT_WINDOW_MS
   \<and> (900001::int) - 0 > RATE_LIMIT_WINDOW_MS
   \<and> attempts rateLimitStore_init (ustr ''203.0.113.7'') [0, 1000, 2000, 900000, 900001]
       = [True, True, True, False, True]"
  using rate_limit_three_per_window
    [of rateLimitStore_init "ustr ''203.0.113.7''" 1000 0 2000 900000 900001]
  by (simp add: rateLimitStore_init_def RATE_LIMIT_WINDOW_MS_def)

text \<open>
  C3 as stated (a request exactly at the window boundary resets the entry and is admitted)
  fails: after three requests at time 0 the request at time 900000, exactly one window
  length later, is rejected and the entry is left as it was.
\<close>

theorem boundary_request_counterexample:
  "(900000::int) - 0 = RATE_LIMIT_WINDOW_MS
   \<and> run_calls rateLimitStore_init
        [(0, ustr ''203.0.113.7''), (0, ustr ''203.0.113.7''), (0, ustr ''203.0.113.7'')]
        (ustr ''203.0.113.7'') = Some \<lparr>count = 3, firstRequest = 0\<rparr>
   \<and> fst (isRateLimited 900000
        (run_calls rateLimitStore_init
          [(0, ustr ''203.0.113.7''), (0, ustr ''203.0.113.7''), (0, ustr ''203.0.113.7'')])
        (ustr ''203.0.113.7''))
   \<and> snd (isRateLimited 900000
        (run_calls rateLimitStore_init
          [(0, ustr ''203.0.113.7''), (0, ustr ''203.0.113.7''), (0, ustr ''203.0.113.7'')])
        (ustr ''203.0.113.7'')) (ustr ''203.0.113.7'') = Some \<lparr>count = 3, firstRequest = 0\<rparr>"
  by (simp add: isRateLimited_def rateLimitStore_init_def RATE_LIMIT_MAX_def
      RATE_LIMIT_WINDOW_MS_def)

text \<open>
  C3, amended. A request exactly at the window boundary is still inside the current
  window (the comparison is a strict \<open>>\<close>): the window start is kept, the request is
  rejected when the counter has reached the maximum and otherwise counted and admitted.
  The entry is reset only when the elapsed time is strictly greater than the window length.
\<close>

theorem boundary_request_in_current_window:
  assumes "store ip = Some entry"
    and "now - firstRequest entry = RATE_LIMIT_WINDOW_MS"
  shows "isRateLimited now store ip =
           (if count entry \<ge> RATE_LIMIT_MAX then (True, store)
            else (False, store(ip \<mapsto> entry\<lparr>count := count entry + 1\<rparr>)))
         \<and> isRateLimited (now + 1) store ip =
           (False, store(ip \<mapsto> \<lparr>count = 1, firstRequest = now + 1\<rparr>))"
  using assms by (simp add: isRateLimited_def)

theorem boundary_request_in_current_window_witness:
  "isRateLimited 900000 (Map.empty(ustr ''203.0.113.7'' \<mapsto> \<lparr>count = 2, firstRequest = 0\<rparr>))
     (ustr ''203.0.113.7'')
   = (False, Map.empty(ustr ''203.0.113.7'' \<mapsto> \<lparr>count = 3, firstRequest = 0\<rparr>))
   \<and> isRateLimited 900001 (Map.empty(ustr ''203.0.113.7'' \<mapsto> \<lparr>count = 2, firstRequest = 0\<rparr>))
     (ustr ''203.0.113.7'')
   = (False, Map.empty(ustr ''203.0.113.7'' \<mapsto> \<lparr>count = 1, firstRequest = 900001\<rparr>))"
  using boundary_request_in_current_window
    [of "Map.empty(ustr ''203.0.113.7'' \<mapsto> \<lparr>count = 2, firstRequest = 0\<rparr>)"
        "ustr ''203.0.113.7''" "\<lparr>count = 2, firstRequest = 0\<rparr>" 900000]
  by (simp add: RATE_LIMIT_WINDOW_MS_def RATE_LIMIT_MAX_def)

text \<open>
  C9. After any sequence of calls from the initial, empty store every entry has
  \<open>1 \<le> count \<le> RATE_LIMIT_MAX\<close>. In such a store a call on an expired entry resets
  it to count 1 with the current time as window start and admits; a counter only grows
  by one, from a value strictly below the maximum, within the window and on an admitted
  call; and a rejected call leaves the whole store unchanged.
\<close>

theorem rate_limit_count_invariant:
  "store_inv (run_calls rateLimitStore_init calls)
   \<and> (\<forall>now ip entry.
        run_calls rateLimitStore_init calls ip = Some entry
          \<and> now - firstRequest entry > RATE_LIMIT_WINDOW_MS \<longrightarrow>
        isRateLimited now (run_calls rateLimitStore_init calls) ip =
          (False, (run_calls rateLimitStore_init calls)(ip \<mapsto> \<lparr>count = 1, firstRequest = now\<rparr>)))
   \<and> (\<forall>now ip ip' entry entry'.
        run_calls rateLimitStore_init calls ip' = Some entry
          \<and> snd (isRateLimited now (run_calls rateLimitStore_init calls) ip) ip' = Some entry'
          \<and> count entry < count entry' \<longrightarrow>
        ip' = ip \<and> count entry < RATE_LIMIT_MAX \<and> count entry' = count entry + 1
          \<and> \<not> now - firstRequest entry > RATE_LIMIT_WINDOW_MS
          \<and> \<not> fst (isRateLimited now (run_calls rateLimitStore_init calls) ip))
   \<and> (\<forall>now ip.
        fst (isRateLimited now (run_calls rateLimitStore_init calls) ip) \<longrightarrow>
        snd (isRateLimited now (run_calls rateLimitStore_init calls) ip)
          = run_calls rateLimitStore_init calls)"
proof -
  let ?store = "run_calls rateLimitStore_init calls"
  have inv: "store_inv ?store"
    by (rule run_calls_inv [OF store_inv_init])
  have expired: "\<forall>now ip entry.
      ?store ip = Some entry \<and> now - firstRequest entry > RATE_LIMIT_WINDOW_MS \<longrightarrow>
      isRateLimited now ?store ip = (False, ?store(ip \<mapsto> \<lparr>count = 1, firstRequest = now\<rparr>))"
    by (simp add: isRateLimited_expired)
  have grows: "\<forall>now ip ip' entry entry'.
      ?store ip' = Some entry \<and> snd (isRateLimited now ?store ip) ip' = Some entry'
        \<and> count entry < count entry' \<longrightarrow>
      ip' = ip \<and> count entry < RATE_LIMIT_MAX \<and> count entry' = count entry + 1
        \<and> \<not> now - firstRequest entry > RATE_LIMIT_WINDOW_MS
        \<and> \<not> fst (isRateLimited now ?store ip)"
  proof (intro allI impI)
    fix now ip ip' entry entry'
    assume h: "?store ip' = Some entry \<and> snd (isRateLimited now ?store ip) ip' = Some entry'
        \<and> count entry < count entry'"
    with inv have "1 \<le> count entry" by (auto simp: store_inv_def)
    with h isRateLimited_count_grows [of ?store ip' entry now ip entry']
    show "ip' = ip \<and> count entry < RATE_LIMIT_MAX \<and> count entry' = count entry + 1
        \<and> \<not> now - firstRequest entry > RATE_LIMIT_WINDOW_MS
        \<and> \<not> fst (isRateLimited now ?store ip)"
      by blast
  qed
  have rejected: "\<forall>now ip. fst (isRateLimited now ?store ip) \<longrightarrow>
      snd (isRateLimited now ?store ip) = ?store"
    by (simp add: isRateLimited_rejected_unchanged)
  from inv expired grows rejected show ?thesis by blast
qed

theorem rate_limit_count_invariant_witness:
  "run_calls rateLimitStore_init
     [(0, ustr ''203.0.113.7''), (5, ustr ''203.0.113.7''), (9, ustr ''203.0.113.7''),
      (11, ustr ''203.0.113.7'')] (ustr ''203.0.113.7'')
     = Some \<lparr>count = 3, firstRequest = 0\<rparr>
   \<and> 1 \<le> count \<lparr>count = 3, firstRequest = 0\<rparr>
   \<and> count \<lparr>count = 3, firstRequest = 0\<rparr> \<le> RATE_LIMIT_MAX
   \<and> store_inv (run_calls rateLimitStore_init
     [(0, ustr ''203.0.113.7''), (5, ustr ''203.0.113.7''), (9, ustr ''203.0.113.7''),
      (11, ustr ''203.0.113.7'')])
   \<and> isRateLimited 12 (run_calls rateLimitStore_init
     [(0, ustr ''203.0.113.7''), (5, ustr ''203.0.113.7''), (9, ustr ''203.0.113.7''),
      (11, ustr ''203.0.113.7'')]) (ustr ''203.0.113.7'')
     = (True, run_calls rateLimitStore_init
     [(0, ustr ''203.0.113.7''), (5, ustr ''203.0.113.7''), (9, ustr ''203.0.113.7''),
      (11, ustr ''203.0.113.7'')])
   \<and> (900001::int) - 0 > RATE_LIMIT_WINDOW_MS
   \<and> snd (isRateLimited 900001 (run_calls rateLimitStore_init
     [(0, ustr ''203.0.113.7''), (5, ustr ''203.0.113.7''), (9, ustr ''203.0.113.7''),
      (11, ustr ''203.0.113.7'')]) (ustr ''203.0.113.7'')) (ustr ''203.0.113.7'')
     = Some \<lparr>count = 1, firstRequest = 900001\<rparr>
   \<and> run_calls rateLimitStore_init [(0, ustr ''203.0.113.7'')] (ustr ''203.0.113.7'')
     = Some \<lparr>count = 1, firstRequest = 0\<rparr>
   \<and> snd (isRateLimited 5 (run_calls rateLimitStore_init [(0, ustr ''203.0.113.7'')])
       (ustr ''203.0.113.7'')) (ustr ''203.0.113.7'')
     = Some \<lparr>count = 2, firstRequest = 0\<rparr>"
proof -
  let ?calls = "[(0, ustr ''203.0.113.7''), (5, ustr ''203.0.113.7''), (9, ustr ''203.0.113.7''),
      (11::int, ustr ''203.0.113.7'')]"
  have inv: "store_inv (run_calls rateLimitStore_init ?calls)"
    using rate_limit_count_invariant [of ?calls] by (rule conjunct1)
  have full: "run_calls rateLimitStore_init ?calls
      = Map.empty(ustr ''203.0.113.7'' \<mapsto> \<lparr>count = 3, firstRequest = 0\<rparr>)"
    by (simp add: isRateLimited_def rateLimitStore_init_def RATE_LIMIT_MAX_def
        RATE_LIMIT_WINDOW_MS_def)
  have one: "run_calls rateLimitStore_init [(0, ustr ''203.0.113.7'')]
      = Map.empty(ustr ''203.0.113.7'' \<mapsto> \<lparr>count = 1, firstRequest = 0\<rparr>)"
    by (simp add: isRateLimited_def rateLimitStore_init_def)
  have rest: "isRateLimited 12 (Map.empty(ustr ''203.0.113.7'' \<mapsto> \<lparr>count = 3, firstRequest = 0\<rparr>))
        (ustr ''203.0.113.7'')
      = (True, Map.empty(ustr ''203.0.113.7'' \<mapsto> \<lparr>count = 3, firstRequest = 0\<rparr>))"
    "(900001::int) - 0 > RATE_LIMIT_WINDOW_MS"
    "snd (isRateLimited 900001
        (Map.empty(ustr ''203.0.113.7'' \<mapsto> \<lparr>count = 3, firstRequest = 0\<rparr>))
        (ustr ''203.0.113.7'')) (ustr ''203.0.113.7'')
      = Some \<lparr>count = 1, firstRequest = 900001\<rparr>"
    "snd (isRateLimited 5
        (Map.empty(ustr ''203.0.113.7'' \<mapsto> \<lparr>count = 1, firstRequest = 0\<rparr>))
        (ustr ''203.0.113.7'')) (ustr ''203.0.113.7'')
      = Some \<lparr>count = 2, firstRequest = 0\<rparr>"
    by (simp_all add: isRateLimited_def RATE_LIMIT_MAX_def RATE_LIMIT_WINDOW_MS_def)
  have bounds: "1 \<le> count \<lparr>count = 3, firstRequest = 0\<rparr>"
    "count \<lparr>count = 3, firstRequest = 0\<rparr> \<le> RATE_LIMIT_MAX"
    by (simp_all add: RATE_LIMIT_MAX_def)
  from inv rest bounds show ?thesis
    unfolding full one by simp
qed

end
